theory Spec2Isabelle
  imports Main
begin

section \<open>Pathfinder: the interaction handler of \<open>pathfinder/gui.py\<close>\<close>

text \<open>
  The repository's \<open>gui.py\<close> holds the class \<open>GUI\<close>: the constructor, the renderer
  \<open>draw\<close>, the event handler \<open>handle_events\<close>, the main \<open>loop\<close> and the pixel-to-cell
  mapping \<open>get_click_pos\<close>. The classes \<open>Graph\<close>, \<open>Cell\<close> and \<open>State\<close> that it imports are
  not part of the sources at hand; what the handler needs of them is modelled from the
  specification (sections 3 and 4), and the three algorithms and the partial reset, whose
  behaviour the specification leaves open, are parameters.
\<close>

subsection \<open>Errors\<close>

text \<open>
  The Python exceptions that the code of \<open>gui.py\<close> can raise by itself: an index out of
  range in \<open>grid[row][col]\<close>, a floor or true division by zero, and a call that misses a
  required argument.
\<close>

datatype error = IndexError | ZeroDivisionError | TypeError

subsection \<open>Cells and the graph\<close>

datatype State = EMPTY | START | END | BARRIER | OPEN | CLOSED | PATH

text \<open>
  Modelled from the spec: the class \<open>Cell\<close> (section 3). A cell has a pixel position, a
  state and the predecessor link that the searches record. Its row and column are its
  index in the grid, and a reference to a cell (\<open>graph.start\<close>, \<open>graph.end\<close>, \<open>node\<close>) is
  that index: cells are created once, never duplicated, and two cells are equal iff they
  have the same row and column (section 4.1). The colour of a cell is a function of its
  state and is not stored.
\<close>

record cell =
  x_pos :: int
  y_pos :: int
  state :: State
  previous :: "(nat \<times> nat) option"

type_synonym node = "nat \<times> nat"

text \<open>
  Modelled from the spec: the class \<open>Graph\<close> (section 3): the two-dimensional collection
  of cells, the nullable references to the start and the end cell, and the flag that says
  whether a computed path exists. The field \<open>end_node\<close> is the attribute \<open>end\<close> of the
  source.
\<close>

record graph =
  grid :: "cell list list"
  start :: "node option"
  end_node :: "node option"
  paths :: bool

definition in_grid :: "cell list list \<Rightarrow> node \<Rightarrow> bool" where
  "in_grid cs p = (fst p < length cs \<and> snd p < length (cs ! fst p))"

definition cell_at :: "cell list list \<Rightarrow> node \<Rightarrow> cell" where
  "cell_at cs p = cs ! fst p ! snd p"

definition update_cell :: "cell list list \<Rightarrow> node \<Rightarrow> (cell \<Rightarrow> cell) \<Rightarrow> cell list list" where
  "update_cell cs p f = cs[fst p := (cs ! fst p)[snd p := f (cs ! fst p ! snd p)]]"

definition state_at :: "graph \<Rightarrow> node \<Rightarrow> State" where
  "state_at g p = state (cell_at (grid g) p)"

text \<open>
  Modelled from the spec: the setters of \<open>Cell\<close> (section 4.1). Each overwrites the state
  and nothing else, without any validation.
\<close>

definition cell_set_start :: "cell \<Rightarrow> cell" where
  "cell_set_start c = c\<lparr>state := START\<rparr>"

definition cell_set_end :: "cell \<Rightarrow> cell" where
  "cell_set_end c = c\<lparr>state := END\<rparr>"

definition cell_set_barrier :: "cell \<Rightarrow> cell" where
  "cell_set_barrier c = c\<lparr>state := BARRIER\<rparr>"

definition cell_set_closed :: "cell \<Rightarrow> cell" where
  "cell_set_closed c = c\<lparr>state := CLOSED\<rparr>"

definition cell_set_open :: "cell \<Rightarrow> cell" where
  "cell_set_open c = c\<lparr>state := OPEN\<rparr>"

definition cell_set_path :: "cell \<Rightarrow> cell" where
  "cell_set_path c = c\<lparr>state := PATH\<rparr>"

definition cell_reset :: "cell \<Rightarrow> cell" where
  "cell_reset c = c\<lparr>state := EMPTY\<rparr>"

text \<open>A method call on the cell that \<open>node\<close> refers to mutates that cell in the grid.\<close>

definition on_node :: "(cell \<Rightarrow> cell) \<Rightarrow> node \<Rightarrow> graph \<Rightarrow> graph" where
  "on_node f p g = g\<lparr>grid := update_cell (grid g) p f\<rparr>"

text \<open>
  Modelled from the spec: the constructor \<open>Graph(rows, cell_width)\<close>. The grid is square
  (the docstring of \<open>GUI.__init__\<close>: the number of rows equals the number of columns),
  every cell is empty and sits at pixel \<open>(col * cell_width, row * cell_width)\<close> (section 6),
  and neither a start, an end nor a path exists.
\<close>

definition Graph :: "int \<Rightarrow> int \<Rightarrow> graph" where
  "Graph n w =
     \<lparr>grid = map (\<lambda>r. map (\<lambda>c. \<lparr>x_pos = int c * w, y_pos = int r * w,
                                 state = EMPTY, previous = None\<rparr>) [0..<nat n]) [0..<nat n],
      start = None, end_node = None, paths = False\<rparr>"

text \<open>
  Modelled from the spec: \<open>Graph.set_start\<close> and \<open>Graph.set_end\<close> (section 4.2) assign the
  reference and set the state of the cell; legality is the caller's business.
\<close>

definition set_start :: "graph \<Rightarrow> node \<Rightarrow> graph" where
  "set_start g p = (on_node cell_set_start p g)\<lparr>start := Some p\<rparr>"

definition set_end :: "graph \<Rightarrow> node \<Rightarrow> graph" where
  "set_end g p = (on_node cell_set_end p g)\<lparr>end_node := Some p\<rparr>"

text \<open>
  Modelled from the spec: \<open>Graph.reset\<close> (section 4.2) clears every cell to \<open>EMPTY\<close>, clears
  the start and end references and clears the flag.
\<close>

definition reset :: "graph \<Rightarrow> graph" where
  "reset g = g\<lparr>grid := map (map cell_reset) (grid g),
               start := None, end_node := None, paths := False\<rparr>"

text \<open>
  Modelled from the spec: \<open>Graph.mark_path(should_mark)\<close> (section 4.2) walks the
  predecessor links from the end cell back to the start cell and sets every cell strictly
  between them to \<open>PATH\<close> (\<open>should_mark\<close> true) or to \<open>CLOSED\<close> (false). The walk stops at the
  start cell, or where a link is missing; a chain of links cannot visit more cells than the
  grid has without repeating one, which bounds the walk.
\<close>

fun walk_path :: "nat \<Rightarrow> bool \<Rightarrow> node option \<Rightarrow> node option \<Rightarrow> cell list list \<Rightarrow> cell list list" where
  "walk_path 0 should_mark s cur cs = cs"
| "walk_path (Suc k) should_mark s cur cs =
     (case cur of
        None \<Rightarrow> cs
      | Some p \<Rightarrow>
          if Some p = s \<or> \<not> in_grid cs p then cs
          else walk_path k should_mark s (previous (cell_at cs p))
                 (update_cell cs p (if should_mark then cell_set_path else cell_set_closed)))"

definition mark_path :: "bool \<Rightarrow> graph \<Rightarrow> graph" where
  "mark_path should_mark g =
     (case end_node g of
        None \<Rightarrow> g
      | Some e \<Rightarrow>
          if in_grid (grid g) e
          then g\<lparr>grid := walk_path (length (concat (grid g))) should_mark (start g)
                            (previous (cell_at (grid g) e)) (grid g)\<rparr>
          else g)"

subsection \<open>The absent algorithms\<close>

text \<open>
  \<open>Graph.a_star\<close>, \<open>Graph.dijkstra\<close>, \<open>Graph.generate_maze\<close> and \<open>Graph.reset_discovered\<close>
  are called by the handler but are not among the sources, and the specification leaves
  their details to the implementer (the concrete maze algorithm, and whether the partial
  reset clears the flag). They are taken as parameters: each maps the graph it is called on
  to the graph it leaves behind. The \<open>GUI\<close> that the source hands to them is their render
  callback.
\<close>

record ops =
  a_star :: "graph \<Rightarrow> graph"
  dijkstra :: "graph \<Rightarrow> graph"
  generate_maze :: "graph \<Rightarrow> graph"
  reset_discovered :: "graph \<Rightarrow> graph"

subsection \<open>The GUI\<close>

text \<open>
  The attributes of \<open>GUI\<close>; the pygame window \<open>win\<close> is outside the model.
\<close>

record gui =
  rows :: int
  columns :: int
  width :: int
  vertex_width :: int
  graph :: graph

text \<open>
  Python's \<open>round(a / b)\<close> for integers \<open>a\<close> and \<open>b \<noteq> 0\<close>: the true quotient rounded to the
  nearest integer, a tie going to the even one. The quotient is taken exactly, where the
  source rounds the float that the true division returns. The two agree for arguments
  below \<open>2 ^ 52\<close>: the float then holds \<open>rows / 2\<close> exactly, and it holds \<open>width / rows\<close> to
  53 bits, on the same side of every half-integer as the quotient itself. Beyond that the
  float can round the other way, and the model is not used there.
\<close>

definition py_round_div :: "int \<Rightarrow> int \<Rightarrow> int" where
  "py_round_div a b =
     (let q = a div b; r = a mod b in
      if 2 * \<bar>r\<bar> < \<bar>b\<bar> then q
      else if 2 * \<bar>r\<bar> > \<bar>b\<bar> then q + 1
      else if even q then q else q + 1)"

text \<open>
  \<open>GUI.__init__(rows, width)\<close>, lines 38 to 42. The division \<open>width / rows\<close> raises
  \<open>ZeroDivisionError\<close> for \<open>rows = 0\<close>. The window that line 44 opens is outside the model;
  pygame accepts a positive \<open>width\<close> for it.
\<close>

definition GUI :: "int \<Rightarrow> int \<Rightarrow> error + gui" where
  "GUI n w =
     (let rs = py_round_div n 2 in
      if n = 0 then Inl ZeroDivisionError
      else
        let vw = 2 * py_round_div w n in
        Inr \<lparr>rows = rs, columns = n, width = w, vertex_width = vw, graph = Graph rs vw\<rparr>)"

text \<open>
  \<open>GUI.get_click_pos\<close>, lines 190 to 193: floor division of the pixel coordinates by the
  cell width, which raises for a cell width of zero. The result is \<open>(row, col)\<close>.
\<close>

definition get_click_pos :: "gui \<Rightarrow> int \<times> int \<Rightarrow> error + int \<times> int" where
  "get_click_pos u xy =
     (if vertex_width u = 0 then Inl ZeroDivisionError
      else Inr (snd xy div vertex_width u, fst xy div vertex_width u))"

text \<open>
  Python's list indexing \<open>xs[i]\<close> on a list of length \<open>n\<close>: a negative index counts from
  the end, and an index outside \<open>-n \<le> i < n\<close> raises \<open>IndexError\<close>.
\<close>

definition py_index :: "nat \<Rightarrow> int \<Rightarrow> error + nat" where
  "py_index n i =
     (if 0 \<le> i \<and> i < int n then Inr (nat i)
      else if - int n \<le> i \<and> i < 0 then Inr (nat (int n + i))
      else Inl IndexError)"

text \<open>\<open>self.graph.grid[row][col]\<close>: the cell that the two indexings reach.\<close>

definition lookup :: "cell list list \<Rightarrow> int \<times> int \<Rightarrow> error + node" where
  "lookup cs rc =
     (case py_index (length cs) (fst rc) of
        Inl err \<Rightarrow> Inl err
      | Inr r \<Rightarrow>
          (case py_index (length (cs ! r)) (snd rc) of
             Inl err \<Rightarrow> Inl err
           | Inr c \<Rightarrow> Inr (r, c)))"

text \<open>
  ``Determine clicked node'': the three lines that open each of the pointer branches
  (99 to 101, 112 to 114, 125 to 127).
\<close>

definition clicked :: "gui \<Rightarrow> int \<times> int \<Rightarrow> error + node" where
  "clicked u xy =
     (case get_click_pos u xy of
        Inl err \<Rightarrow> Inl err
      | Inr rc \<Rightarrow> lookup (grid (graph u)) rc)"

subsection \<open>Events\<close>

text \<open>
  What the handler reads of a pygame event: its type (with the key of a \<open>KEYDOWN\<close>), and
  the state of the pointer that \<open>pygame.mouse.get_pressed()\<close> and \<open>pygame.mouse.get_pos()\<close>
  report while the event is handled.
\<close>

datatype key = K_ESCAPE | K_c | K_a | K_d | K_m | K_other nat

datatype event_type = QUIT | KEYDOWN key | OTHER

record event =
  etype :: event_type
  pressed0 :: bool
  pressed1 :: bool
  pressed2 :: bool
  mouse_pos :: "int \<times> int"

subsection \<open>The handler\<close>

text \<open>Lines 103 to 108: the left button.\<close>

definition left_click :: "graph \<Rightarrow> node \<Rightarrow> graph" where
  "left_click g p =
     (if start g = None \<and> Some p \<noteq> end_node g then set_start g p
      else if Some p \<noteq> end_node g \<and> Some p \<noteq> start g \<and> \<not> paths g
           then on_node cell_set_barrier p g
      else g)"

text \<open>Lines 116 to 120: the middle button.\<close>

definition middle_click :: "graph \<Rightarrow> node \<Rightarrow> graph" where
  "middle_click g p =
     (if end_node g = None \<and> Some p \<noteq> start g \<and> state_at g p \<noteq> BARRIER
      then (let g1 = set_end g p in if paths g1 then mark_path False g1 else g1)
      else g)"

text \<open>Lines 130 to 142: the right button.\<close>

definition right_click :: "graph \<Rightarrow> node \<Rightarrow> graph" where
  "right_click g p =
     (if state_at g p = END
         \<or> (\<not> paths g \<and> state_at g p = BARRIER)
         \<or> (\<not> paths g \<and> state_at g p = START)
      then
        (let g1 = on_node cell_reset p g in
         if Some p = start g1 then g1\<lparr>start := None\<rparr>
         else if Some p = end_node g1
         then (let g2 = (if paths g1 then on_node cell_set_closed p (mark_path True g1) else g1)
               in g2\<lparr>end_node := None\<rparr>)
         else g1)
      else g)"

text \<open>Lines 147 to 165: a key goes down.\<close>

definition key_down :: "ops \<Rightarrow> graph \<Rightarrow> key \<Rightarrow> graph" where
  "key_down A g k =
     (if k = K_ESCAPE then reset g
      else if k = K_c then reset_discovered A g
      else if start g \<noteq> None \<and> end_node g \<noteq> None \<and> k = K_a
      then (let g1 = a_star A g in if end_node g1 \<noteq> None then mark_path False g1 else g1)
      else if start g \<noteq> None \<and> k = K_d
      then (let g1 = dijkstra A g in if end_node g1 \<noteq> None then mark_path False g1 else g1)
      else if k = K_m then generate_maze A (reset g)
      else g)"

text \<open>
  Lines 96 to 165: the body of the loop over the events, after the test for \<open>QUIT\<close>. The
  pointer is polled for every event, whatever its type, and a key is looked at only when no
  button is down.
\<close>

definition handle_event :: "ops \<Rightarrow> gui \<Rightarrow> event \<Rightarrow> error + gui" where
  "handle_event A u e =
     (if pressed0 e then
        (case clicked u (mouse_pos e) of
           Inl err \<Rightarrow> Inl err
         | Inr p \<Rightarrow> Inr (u\<lparr>graph := left_click (graph u) p\<rparr>))
      else if pressed1 e then
        (case clicked u (mouse_pos e) of
           Inl err \<Rightarrow> Inl err
         | Inr p \<Rightarrow> Inr (u\<lparr>graph := middle_click (graph u) p\<rparr>))
      else if pressed2 e then
        (case clicked u (mouse_pos e) of
           Inl err \<Rightarrow> Inl err
         | Inr p \<Rightarrow> Inr (u\<lparr>graph := right_click (graph u) p\<rparr>))
      else
        (case etype e of
           KEYDOWN k \<Rightarrow> Inr (u\<lparr>graph := key_down A (graph u) k\<rparr>)
         | _ \<Rightarrow> Inr u))"

text \<open>
  \<open>GUI.handle_events\<close>, lines 91 to 166, on the events that \<open>pygame.event.get()\<close> returned:
  \<open>False\<close> at the first \<open>QUIT\<close>, \<open>True\<close> when all events are handled.
\<close>

fun handle_events :: "ops \<Rightarrow> gui \<Rightarrow> event list \<Rightarrow> error + bool \<times> gui" where
  "handle_events A u [] = Inr (True, u)"
| "handle_events A u (e # es) =
     (if etype e = QUIT then Inr (False, u)
      else (case handle_event A u e of
              Inl err \<Rightarrow> Inl err
            | Inr u' \<Rightarrow> handle_events A u' es))"

subsection \<open>Rendering and the main loop\<close>

text \<open>
  \<open>GUI.draw(self, fps)\<close>, lines 71 to 84: one filled square for each cell, at the pixel
  position of the cell and of the width of a cell, and a clock tick at \<open>fps\<close>. The square
  carries the state that fixes its colour. The second argument of the model is the list of
  positional arguments of the call: \<open>fps\<close> has no default value, and Python raises
  \<open>TypeError\<close> for a call that does not pass exactly one.
\<close>

record frame =
  rects :: "(State \<times> int \<times> int \<times> int \<times> int) list"
  tick :: int

fun draw :: "gui \<Rightarrow> int list \<Rightarrow> error + frame" where
  "draw u [fps] =
     Inr \<lparr>rects = concat (map (map (\<lambda>c. (state c, x_pos c, y_pos c, vertex_width u, vertex_width u)))
                           (grid (graph u))),
          tick = fps\<rparr>"
| "draw u args = Inl TypeError"

text \<open>
  One round of \<open>GUI.loop\<close>, lines 172 and 173: \<open>while self.handle_events(): self.draw()\<close>.
  The call of \<open>draw\<close> passes no argument. The result is the frame drawn, or nothing when
  the handler returned \<open>False\<close> and the loop ends.
\<close>

definition loop_iteration :: "ops \<Rightarrow> gui \<Rightarrow> event list \<Rightarrow> error + gui \<times> frame option" where
  "loop_iteration A u es =
     (case handle_events A u es of
        Inl err \<Rightarrow> Inl err
      | Inr (continue, u') \<Rightarrow>
          if continue then
            (case draw u' [] of
               Inl err \<Rightarrow> Inl err
             | Inr f \<Rightarrow> Inr (u', Some f))
          else Inr (u', None))"

subsection \<open>The invariants of the grid\<close>

text \<open>The indices of all cells of a grid, row by row.\<close>

definition nodes :: "cell list list \<Rightarrow> node list" where
  "nodes cs = concat (map (\<lambda>r. map (\<lambda>c. (r, c)) [0..<length (cs ! r)]) [0..<length cs])"

text \<open>
  The invariants of section 3 of the specification, read on the states of the cells and on
  the two references: at most one cell is in state \<open>START\<close>, at most one is in state \<open>END\<close>,
  the start cell and the end cell are not the same cell, and a cell in state \<open>BARRIER\<close> is
  neither the start cell nor the end cell.
\<close>

definition invariants :: "graph \<Rightarrow> bool" where
  "invariants g =
     ((\<forall>p \<in> set (nodes (grid g)). \<forall>q \<in> set (nodes (grid g)).
         state_at g p = START \<and> state_at g q = START \<longrightarrow> p = q)
      \<and> (\<forall>p \<in> set (nodes (grid g)). \<forall>q \<in> set (nodes (grid g)).
         state_at g p = END \<and> state_at g q = END \<longrightarrow> p = q)
      \<and> (start g \<noteq> None \<longrightarrow> start g \<noteq> end_node g)
      \<and> (\<forall>p \<in> set (nodes (grid g)).
         state_at g p = BARRIER \<longrightarrow> start g \<noteq> Some p \<and> end_node g \<noteq> Some p))"

text \<open>
  What the handler keeps from one event to the next, and what implies the invariants: a
  cell in state \<open>START\<close> is the one that \<open>start\<close> refers to, a cell in state \<open>END\<close> is the one
  that \<open>end\<close> refers to, the two references differ, and neither refers to a barrier.
\<close>

definition consistent :: "graph \<Rightarrow> bool" where
  "consistent g =
     ((\<forall>p \<in> set (nodes (grid g)). state_at g p = START \<longrightarrow> start g = Some p)
      \<and> (\<forall>p \<in> set (nodes (grid g)). state_at g p = END \<longrightarrow> end_node g = Some p)
      \<and> (start g \<noteq> None \<longrightarrow> start g \<noteq> end_node g)
      \<and> (\<forall>p \<in> set (nodes (grid g)).
         state_at g p = BARRIER \<longrightarrow> start g \<noteq> Some p \<and> end_node g \<noteq> Some p))"

text \<open>
  The assumption on the absent algorithms: each of them keeps a consistent graph
  consistent. Section 4 of the specification describes them so: the searches set cells to
  \<open>OPEN\<close>, \<open>CLOSED\<close> and \<open>PATH\<close>, the maze generator sets cells other than the start and the
  end to \<open>BARRIER\<close>, the partial reset sets cells to \<open>EMPTY\<close>, and none of them assigns the
  start or the end.
\<close>

definition ops_ok :: "ops \<Rightarrow> bool" where
  "ops_ok A =
     (\<forall>g. consistent g \<longrightarrow>
        consistent (a_star A g) \<and> consistent (dijkstra A g)
        \<and> consistent (generate_maze A g) \<and> consistent (reset_discovered A g))"

subsection \<open>Concrete inputs\<close>

text \<open>
  An instance of the parameters, for the examples: a search and a maze generation that are
  cancelled before their first step and leave the graph as they found it (section 5), and
  the partial reset that keeps the flag (section 4.2).
\<close>

definition clear_discovered :: "graph \<Rightarrow> graph" where
  "clear_discovered g =
     g\<lparr>grid := map (map (\<lambda>c. if state c = OPEN \<or> state c = CLOSED \<or> state c = PATH
                                then cell_reset c else c)) (grid g)\<rparr>"

definition cancelled :: ops where
  "cancelled = \<lparr>a_star = (\<lambda>g. g), dijkstra = (\<lambda>g. g), generate_maze = (\<lambda>g. g),
                reset_discovered = clear_discovered\<rparr>"

text \<open>The events of the examples: one button down at a pixel, or a key and no button.\<close>

definition left_press :: "int \<times> int \<Rightarrow> event" where
  "left_press xy =
     \<lparr>etype = OTHER, pressed0 = True, pressed1 = False, pressed2 = False, mouse_pos = xy\<rparr>"

definition middle_press :: "int \<times> int \<Rightarrow> event" where
  "middle_press xy =
     \<lparr>etype = OTHER, pressed0 = False, pressed1 = True, pressed2 = False, mouse_pos = xy\<rparr>"

definition right_press :: "int \<times> int \<Rightarrow> event" where
  "right_press xy =
     \<lparr>etype = OTHER, pressed0 = False, pressed1 = False, pressed2 = True, mouse_pos = xy\<rparr>"

definition key_press :: "key \<Rightarrow> event" where
  "key_press k =
     \<lparr>etype = KEYDOWN k, pressed0 = False, pressed1 = False, pressed2 = False,
      mouse_pos = (0, 0)\<rparr>"

text \<open>
  The GUI that \<open>GUI(5, 100)\<close> constructs: a window of 100 pixels and a grid of two rows and
  two columns of cells 40 pixels wide.
\<close>

definition small_gui :: gui where
  "small_gui = \<lparr>rows = 2, columns = 5, width = 100, vertex_width = 40, graph = Graph 2 40\<rparr>"

text \<open>
  The same GUI after a search from the cell \<open>(0, 0)\<close> to the cell \<open>(1, 1)\<close> has found the path
  through \<open>(0, 1)\<close>: the predecessor links lead from the end to the start, and the flag is set.
\<close>

definition found_graph :: graph where
  "found_graph =
     \<lparr>grid =
        [[\<lparr>x_pos = 0, y_pos = 0, state = START, previous = None\<rparr>,
          \<lparr>x_pos = 40, y_pos = 0, state = PATH, previous = Some (0, 0)\<rparr>],
         [\<lparr>x_pos = 0, y_pos = 40, state = CLOSED, previous = Some (0, 0)\<rparr>,
          \<lparr>x_pos = 40, y_pos = 40, state = END, previous = Some (0, 1)\<rparr>]],
      start = Some (0, 0), end_node = Some (1, 1), paths = True\<rparr>"

definition found_gui :: gui where
  "found_gui = small_gui\<lparr>graph := found_graph\<rparr>"

text \<open>
  The GUI of \<open>GUI(5, 100)\<close> after its first event: a press of the middle button on the cell
  \<open>(0, 0)\<close>, which makes it the end, or a press of the left button there, which makes it the
  start.
\<close>

definition end_first_gui :: gui where
  "end_first_gui = small_gui\<lparr>graph := set_end (Graph 2 40) (0, 0)\<rparr>"

definition start_first_gui :: gui where
  "start_first_gui = small_gui\<lparr>graph := set_start (Graph 2 40) (0, 0)\<rparr>"

text \<open>
  The graph of \<open>found_graph\<close> after a press of the right button on its end cell \<open>(1, 1)\<close>,
  and after a press of the middle button on the cell \<open>(1, 0)\<close> that follows it.
\<close>

definition end_deleted_graph :: graph where
  "end_deleted_graph =
     \<lparr>grid =
        [[\<lparr>x_pos = 0, y_pos = 0, state = START, previous = None\<rparr>,
          \<lparr>x_pos = 40, y_pos = 0, state = PATH, previous = Some (0, 0)\<rparr>],
         [\<lparr>x_pos = 0, y_pos = 40, state = CLOSED, previous = Some (0, 0)\<rparr>,
          \<lparr>x_pos = 40, y_pos = 40, state = CLOSED, previous = Some (0, 1)\<rparr>]],
      start = Some (0, 0), end_node = None, paths = True\<rparr>"

definition end_moved_graph :: graph where
  "end_moved_graph =
     \<lparr>grid =
        [[\<lparr>x_pos = 0, y_pos = 0, state = START, previous = None\<rparr>,
          \<lparr>x_pos = 40, y_pos = 0, state = PATH, previous = Some (0, 0)\<rparr>],
         [\<lparr>x_pos = 0, y_pos = 40, state = END, previous = Some (0, 0)\<rparr>,
          \<lparr>x_pos = 40, y_pos = 40, state = CLOSED, previous = Some (0, 1)\<rparr>]],
      start = Some (0, 0), end_node = Some (1, 0), paths = True\<rparr>"

text \<open>
  A graph as \<open>Graph.reset\<close> leaves it: every cell empty, no start, no end, no path.
\<close>

definition is_reset :: "graph \<Rightarrow> bool" where
  "is_reset g =
     (list_all (list_all (\<lambda>c. state c = EMPTY)) (grid g)
      \<and> start g = None \<and> end_node g = None \<and> \<not> paths g)"

text \<open>
  A second instance of the parameters: a search from the start cell \<open>(0, 0)\<close> that is
  cancelled after its first expansion, the two neighbours of the start being open and
  linked to it (section 4.3), and a maze of the one barrier \<open>(0, 1)\<close>.
\<close>

definition first_expansion :: "graph \<Rightarrow> graph" where
  "first_expansion g =
     on_node (\<lambda>c. cell_set_open (c\<lparr>previous := Some (0, 0)\<rparr>)) (0, 1)
       (on_node (\<lambda>c. cell_set_open (c\<lparr>previous := Some (0, 0)\<rparr>)) (1, 0) g)"

definition sample_run :: ops where
  "sample_run = \<lparr>a_star = first_expansion, dijkstra = first_expansion,
                 generate_maze = on_node cell_set_barrier (0, 1),
                 reset_discovered = clear_discovered\<rparr>"

text \<open>
  The graph of \<open>GUI(5, 100)\<close> after the start is set at \<open>(0, 0)\<close>, the end at \<open>(1, 1)\<close> and a
  barrier at \<open>(0, 1)\<close>, and the start is deleted again.
\<close>

definition edited_graph :: graph where
  "edited_graph =
     \<lparr>grid =
        [[\<lparr>x_pos = 0, y_pos = 0, state = EMPTY, previous = None\<rparr>,
          \<lparr>x_pos = 40, y_pos = 0, state = BARRIER, previous = None\<rparr>],
         [\<lparr>x_pos = 0, y_pos = 40, state = EMPTY, previous = None\<rparr>,
          \<lparr>x_pos = 40, y_pos = 40, state = END, previous = None\<rparr>]],
      start = None, end_node = Some (1, 1), paths = False\<rparr>"

section \<open>Properties\<close>

subsection \<open>Cells of the grid\<close>

lemma update_cell_outside: "\<not> in_grid cs p \<Longrightarrow> update_cell cs p f = cs"
  by (cases "fst p < length cs") (simp_all add: in_grid_def update_cell_def list_update_beyond)

lemma length_update_cell [simp]: "length (update_cell cs p f) = length cs"
  by (simp add: update_cell_def)

lemma length_row_update_cell [simp]: "length (update_cell cs p f ! r) = length (cs ! r)"
  by (cases "r = fst p"; cases "fst p < length cs"; simp add: update_cell_def list_update_beyond)

lemma in_grid_update_cell [simp]: "in_grid (update_cell cs p f) q = in_grid cs q"
  by (simp add: in_grid_def)

lemma cell_at_update_cell_same: "in_grid cs p \<Longrightarrow> cell_at (update_cell cs p f) p = f (cell_at cs p)"
  by (simp add: in_grid_def cell_at_def update_cell_def)

lemma cell_at_update_cell_other: "q \<noteq> p \<Longrightarrow> cell_at (update_cell cs p f) q = cell_at cs q"
  by (cases "fst q = fst p"; cases "fst p < length cs";
      auto simp add: cell_at_def update_cell_def prod_eq_iff list_update_beyond)

lemma cell_at_update_cell:
  "cell_at (update_cell cs p f) q = (if q = p \<and> in_grid cs p then f (cell_at cs p) else cell_at cs q)"
  by (cases "q = p"; cases "in_grid cs p")
     (simp_all add: cell_at_update_cell_same cell_at_update_cell_other update_cell_outside)

lemma on_node_fields [simp]:
  "start (on_node f p g) = start g"
  "end_node (on_node f p g) = end_node g"
  "paths (on_node f p g) = paths g"
  "in_grid (grid (on_node f p g)) q = in_grid (grid g) q"
  by (simp_all add: on_node_def)

lemma state_at_on_node:
  "state_at (on_node f p g) q =
     (if q = p \<and> in_grid (grid g) p then state (f (cell_at (grid g) p)) else state_at g q)"
  by (simp add: state_at_def on_node_def cell_at_update_cell)

lemma state_at_fields [simp]:
  "state_at (g\<lparr>start := s\<rparr>) q = state_at g q"
  "state_at (g\<lparr>end_node := t\<rparr>) q = state_at g q"
  "state_at (g\<lparr>paths := b\<rparr>) q = state_at g q"
  by (simp_all add: state_at_def)

lemma cell_setters [simp]:
  "state (cell_set_start c) = START"
  "state (cell_set_end c) = END"
  "state (cell_set_barrier c) = BARRIER"
  "state (cell_set_closed c) = CLOSED"
  "state (cell_set_path c) = PATH"
  "state (cell_reset c) = EMPTY"
  by (simp_all add: cell_set_start_def cell_set_end_def cell_set_barrier_def
        cell_set_closed_def cell_set_path_def cell_reset_def)

lemma py_index_result: "py_index n i = Inr k \<Longrightarrow> k < n"
  by (auto simp add: py_index_def split: if_splits)

lemma lookup_in_grid: "in_grid cs (r, c) \<Longrightarrow> lookup cs (int r, int c) = Inr (r, c)"
  by (simp add: lookup_def in_grid_def py_index_def)

lemma lookup_result_in_grid: "lookup cs rc = Inr p \<Longrightarrow> in_grid cs p"
  by (auto simp add: lookup_def in_grid_def split: sum.splits dest: py_index_result)

lemma clicked_in_grid: "clicked u xy = Inr p \<Longrightarrow> in_grid (grid (graph u)) p"
  by (auto simp add: clicked_def split: sum.splits dest: lookup_result_in_grid)

lemma clicked_inside:
  assumes "vertex_width u \<noteq> 0" and "in_grid (grid (graph u)) (r, c)"
    and "snd xy div vertex_width u = int r" and "fst xy div vertex_width u = int c"
  shows "clicked u xy = Inr (r, c)"
  using assms by (simp add: clicked_def get_click_pos_def lookup_in_grid)

lemma walk_path_in_grid [simp]: "in_grid (walk_path k m s cur cs) q = in_grid cs q"
  by (induction k arbitrary: cur cs) (auto split: option.splits)

lemma walk_path_state:
  "state (cell_at (walk_path k m s cur cs) q) = state (cell_at cs q)
   \<or> state (cell_at (walk_path k m s cur cs) q) = PATH
   \<or> state (cell_at (walk_path k m s cur cs) q) = CLOSED"
proof (induction k arbitrary: cur cs)
  case 0
  show ?case by simp
next
  case (Suc k)
  show ?case
  proof (cases cur)
    case None
    then show ?thesis by simp
  next
    case (Some p)
    show ?thesis
    proof (cases "Some p = s \<or> \<not> in_grid cs p")
      case True
      with Some show ?thesis by auto
    next
      case False
      let ?cs = "update_cell cs p (if m then cell_set_path else cell_set_closed)"
      have step: "walk_path (Suc k) m s cur cs = walk_path k m s (previous (cell_at cs p)) ?cs"
        using Some False by simp
      have "state (cell_at ?cs q) = state (cell_at cs q) \<or> state (cell_at ?cs q) = PATH
            \<or> state (cell_at ?cs q) = CLOSED"
        by (simp add: cell_at_update_cell)
      with Suc.IH [of "previous (cell_at cs p)" ?cs] step show ?thesis
        by auto
    qed
  qed
qed

lemma mark_path_fields [simp]:
  "start (mark_path m g) = start g"
  "end_node (mark_path m g) = end_node g"
  "paths (mark_path m g) = paths g"
  "in_grid (grid (mark_path m g)) q = in_grid (grid g) q"
  by (simp_all add: mark_path_def split: option.splits)

lemma mark_path_state:
  "state_at (mark_path m g) q = state_at g q \<or> state_at (mark_path m g) q = PATH
   \<or> state_at (mark_path m g) q = CLOSED"
  using walk_path_state [of _ m "start g" _ "grid g" q]
  by (auto simp add: mark_path_def state_at_def split: option.splits)

subsection \<open>The branches of the handler\<close>

lemma handle_event_left:
  "pressed0 e \<Longrightarrow> clicked u (mouse_pos e) = Inr p \<Longrightarrow>
   handle_event A u e = Inr (u\<lparr>graph := left_click (graph u) p\<rparr>)"
  by (simp add: handle_event_def)

lemma handle_event_middle:
  "\<not> pressed0 e \<Longrightarrow> pressed1 e \<Longrightarrow> clicked u (mouse_pos e) = Inr p \<Longrightarrow>
   handle_event A u e = Inr (u\<lparr>graph := middle_click (graph u) p\<rparr>)"
  by (simp add: handle_event_def)

lemma handle_event_right:
  "\<not> pressed0 e \<Longrightarrow> \<not> pressed1 e \<Longrightarrow> pressed2 e \<Longrightarrow> clicked u (mouse_pos e) = Inr p \<Longrightarrow>
   handle_event A u e = Inr (u\<lparr>graph := right_click (graph u) p\<rparr>)"
  by (simp add: handle_event_def)

lemma handle_event_key:
  "\<not> pressed0 e \<Longrightarrow> \<not> pressed1 e \<Longrightarrow> \<not> pressed2 e \<Longrightarrow> etype e = KEYDOWN k \<Longrightarrow>
   handle_event A u e = Inr (u\<lparr>graph := key_down A (graph u) k\<rparr>)"
  by (simp add: handle_event_def)

lemma handle_event_pointer_error:
  "pressed0 e \<or> pressed1 e \<or> pressed2 e \<Longrightarrow> clicked u (mouse_pos e) = Inl err \<Longrightarrow>
   handle_event A u e = Inl err"
  by (auto simp add: handle_event_def)

lemma handle_event_pointer_ok:
  "pressed0 e \<or> pressed1 e \<or> pressed2 e \<Longrightarrow> clicked u (mouse_pos e) = Inr p \<Longrightarrow>
   \<exists>u'. handle_event A u e = Inr u'"
  by (auto simp add: handle_event_def)

lemma lookup_beyond:
  assumes "int (length cs) \<le> fst rc
     \<or> (0 \<le> fst rc \<and> fst rc < int (length cs) \<and> int (length (cs ! nat (fst rc))) \<le> snd rc)"
  shows "lookup cs rc = Inl IndexError"
  using assms by (auto simp add: lookup_def py_index_def)

lemma state_at_set_start: "in_grid (grid g) p \<Longrightarrow> state_at (set_start g p) p = START"
  by (simp add: set_start_def state_at_on_node)

lemma state_at_set_end: "in_grid (grid g) p \<Longrightarrow> state_at (set_end g p) p = END"
  by (simp add: set_end_def state_at_on_node)

lemma GUI_5_100: "GUI 5 100 = Inr small_gui"
  by (simp add: GUI_def py_round_div_def small_gui_def Let_def)

lemma grid_small: "grid (Graph 2 40) =
   [[\<lparr>x_pos = 0, y_pos = 0, state = EMPTY, previous = None\<rparr>,
     \<lparr>x_pos = 40, y_pos = 0, state = EMPTY, previous = None\<rparr>],
    [\<lparr>x_pos = 0, y_pos = 40, state = EMPTY, previous = None\<rparr>,
     \<lparr>x_pos = 40, y_pos = 40, state = EMPTY, previous = None\<rparr>]]"
  by (simp add: Graph_def upt_conv_Cons)

lemma small_fields [simp]:
  "vertex_width small_gui = 40" "graph small_gui = Graph 2 40"
  "start (Graph 2 40) = None" "end_node (Graph 2 40) = None" "paths (Graph 2 40) = False"
  by (simp_all add: small_gui_def Graph_def)

lemma clicked_small:
  "clicked small_gui (50, 10) = Inr (0, 1)"
  "clicked small_gui (10, 10) = Inr (0, 0)"
  "clicked small_gui (90, 10) = Inl IndexError"
  by (simp_all add: clicked_def get_click_pos_def lookup_def py_index_def grid_small)

subsection \<open>C2: from the pixel to the cell\<close>

text \<open>
  C2, as the code has it. A pointer event at the pixel \<open>(x, y)\<close> is mapped to
  \<open>(row, col) = (y div cell_width, x div cell_width)\<close> by floor division. The handler has no
  bounds check of its own: it indexes the grid with \<open>(row, col)\<close> for every event that
  arrives while a button is down. When \<open>(row, col)\<close> lies inside the grid, the cell is found
  and the handler returns without an exception. When the row is at or beyond the number of
  rows, or the column at or beyond the length of its row, the indexing raises
  \<open>IndexError\<close>, and the exception leaves the handler.
\<close>

theorem pointer_event_lookup:
  assumes "pressed0 e \<or> pressed1 e \<or> pressed2 e"
    and "vertex_width u \<noteq> 0"
    and "mouse_pos e = (x, y)"
    and "row = y div vertex_width u" and "col = x div vertex_width u"
    and "cs = grid (graph u)"
  shows "get_click_pos u (mouse_pos e) = Inr (row, col)
    \<and> (0 \<le> row \<and> row < int (length cs) \<and> 0 \<le> col \<and> col < int (length (cs ! nat row))
        \<longrightarrow> clicked u (mouse_pos e) = Inr (nat row, nat col)
            \<and> (\<exists>u'. handle_event A u e = Inr u'))
    \<and> (int (length cs) \<le> row
         \<or> (0 \<le> row \<and> row < int (length cs) \<and> int (length (cs ! nat row)) \<le> col)
        \<longrightarrow> handle_event A u e = Inl IndexError)"
proof (intro conjI impI)
  show pos: "get_click_pos u (mouse_pos e) = Inr (row, col)"
    using assms by (simp add: get_click_pos_def)
  {
    assume inside: "0 \<le> row \<and> row < int (length cs) \<and> 0 \<le> col \<and> col < int (length (cs ! nat row))"
    then have "in_grid cs (nat row, nat col)"
      by (auto simp add: in_grid_def nat_less_iff)
    then have "lookup cs (row, col) = Inr (nat row, nat col)"
      using inside lookup_in_grid [of cs "nat row" "nat col"] by simp
    with pos show c: "clicked u (mouse_pos e) = Inr (nat row, nat col)"
      using assms(6) by (simp add: clicked_def)
    from handle_event_pointer_ok [OF assms(1) c] show "\<exists>u'. handle_event A u e = Inr u'" .
  }
  {
    assume "int (length cs) \<le> row
         \<or> (0 \<le> row \<and> row < int (length cs) \<and> int (length (cs ! nat row)) \<le> col)"
    then have "lookup cs (row, col) = Inl IndexError"
      by (intro lookup_beyond) simp
    with pos have "clicked u (mouse_pos e) = Inl IndexError"
      using assms(6) by (simp add: clicked_def)
    from handle_event_pointer_error [OF assms(1) this]
    show "handle_event A u e = Inl IndexError" .
  }
qed

text \<open>
  The theorem at the window of \<open>GUI(5, 100)\<close>: the pixel \<open>(50, 10)\<close> is inside the grid, the
  pixel \<open>(90, 10)\<close> is beyond its last column.
\<close>

theorem pointer_event_lookup_witness:
  "get_click_pos small_gui (50, 10) = Inr (0, 1)
   \<and> clicked small_gui (50, 10) = Inr (0, 1)
   \<and> (\<exists>u'. handle_event cancelled small_gui (left_press (50, 10)) = Inr u')
   \<and> handle_event cancelled small_gui (right_press (90, 10)) = Inl IndexError"
proof -
  have a: "pressed0 (left_press (50, 10)) \<or> pressed1 (left_press (50, 10)) \<or> pressed2 (left_press (50, 10))"
    by (simp add: left_press_def)
  have b: "pressed0 (right_press (90, 10)) \<or> pressed1 (right_press (90, 10)) \<or> pressed2 (right_press (90, 10))"
    by (simp add: right_press_def)
  have w: "vertex_width small_gui \<noteq> 0"
    by simp
  have l: "mouse_pos (left_press (50, 10)) = (50, 10)"
    by (simp add: left_press_def)
  have r: "mouse_pos (right_press (90, 10)) = (90, 10)"
    by (simp add: right_press_def)
  have d: "(0::int) = 10 div vertex_width small_gui" "(1::int) = 50 div vertex_width small_gui"
    "(2::int) = 90 div vertex_width small_gui"
    by simp_all
  note inside = pointer_event_lookup [OF a w l d(1) d(2) refl, of cancelled]
  note beyond = pointer_event_lookup [OF b w r d(1) d(3) refl, of cancelled]
  from inside have "get_click_pos small_gui (50, 10) = Inr (0, 1)
     \<and> clicked small_gui (50, 10) = Inr (0, 1)
     \<and> (\<exists>u'. handle_event cancelled small_gui (left_press (50, 10)) = Inr u')"
    by (simp add: l grid_small)
  moreover from beyond have "handle_event cancelled small_gui (right_press (90, 10)) = Inl IndexError"
    by (simp add: grid_small)
  ultimately show ?thesis
    by simp
qed

text \<open>
  C2 as stated fails. \<open>GUI(5, 100)\<close> has a window of 100 pixels and a grid of two columns
  of 40 pixels; a press at the pixel \<open>(90, 10)\<close>, inside the window, is mapped to the column
  2, which the grid does not have, and the handler ends in \<open>IndexError\<close> instead of ignoring
  the event.
\<close>

theorem out_of_grid_click_raises:
  "GUI 5 100 = Inr small_gui
   \<and> get_click_pos small_gui (90, 10) = Inr (0, 2)
   \<and> \<not> in_grid (grid (graph small_gui)) (0, 2)
   \<and> handle_event cancelled small_gui (left_press (90, 10)) = Inl IndexError"
proof -
  have "handle_event cancelled small_gui (left_press (90, 10)) = Inl IndexError"
    by (simp add: handle_event_def left_press_def clicked_small)
  moreover have "get_click_pos small_gui (90, 10) = Inr (0, 2)"
    by (simp add: get_click_pos_def)
  moreover have "\<not> in_grid (grid (graph small_gui)) (0, 2)"
    by (simp add: in_grid_def grid_small)
  ultimately show ?thesis
    using GUI_5_100 by simp
qed

subsection \<open>C3: the left button\<close>

lemma gui_graph_same [simp]: "u\<lparr>graph := graph u\<rparr> = u"
  by simp

lemma clicked_small_more:
  "clicked end_first_gui (10, 10) = Inr (0, 0)"
  "clicked start_first_gui (10, 10) = Inr (0, 0)"
  "clicked start_first_gui (50, 10) = Inr (0, 1)"
  by (simp_all add: clicked_def get_click_pos_def lookup_def py_index_def grid_small
      end_first_gui_def start_first_gui_def set_end_def set_start_def on_node_def)

text \<open>
  C3, as the code has it. For every press of the left button on a cell of the grid: if no
  start cell is designated and the clicked cell is not the end cell, the clicked cell
  becomes the start cell, in state \<open>START\<close>; if no start cell is designated and the clicked
  cell is the end cell, nothing changes. Otherwise, a start cell being designated, the
  clicked cell is set to \<open>BARRIER\<close> if and only if no computed path exists and the cell is
  neither the start cell nor the end cell, whatever state it is in; in every other case
  nothing changes.
\<close>

theorem left_press_effect:
  assumes "pressed0 e" and "clicked u (mouse_pos e) = Inr p" and "graph u = g"
  shows "(start g = None \<and> end_node g \<noteq> Some p
            \<longrightarrow> handle_event A u e = Inr (u\<lparr>graph := set_start g p\<rparr>)
                \<and> start (set_start g p) = Some p \<and> state_at (set_start g p) p = START)
       \<and> (start g = None \<and> end_node g = Some p \<longrightarrow> handle_event A u e = Inr u)
       \<and> (start g \<noteq> None \<and> \<not> paths g \<and> start g \<noteq> Some p \<and> end_node g \<noteq> Some p
            \<longrightarrow> handle_event A u e = Inr (u\<lparr>graph := on_node cell_set_barrier p g\<rparr>)
                \<and> state_at (on_node cell_set_barrier p g) p = BARRIER)
       \<and> (start g \<noteq> None \<and> (paths g \<or> start g = Some p \<or> end_node g = Some p)
            \<longrightarrow> handle_event A u e = Inr u)"
proof -
  have h: "handle_event A u e = Inr (u\<lparr>graph := left_click g p\<rparr>)"
    using assms handle_event_left [of e u p A] by simp
  have i: "in_grid (grid g) p"
    using assms clicked_in_grid [of u "mouse_pos e" p] by simp
  have same: "u\<lparr>graph := g\<rparr> = u"
    using assms(3) by auto
  show ?thesis
    using i same by (auto simp add: h left_click_def state_at_set_start state_at_on_node set_start_def)
qed

text \<open>
  The theorem on the grid of \<open>GUI(5, 100)\<close>: the first press sets the start, a press on
  another cell sets a barrier, and a press on the start cell changes nothing.
\<close>

theorem left_press_effect_witness:
  "handle_event cancelled small_gui (left_press (10, 10)) = Inr start_first_gui
   \<and> handle_event cancelled start_first_gui (left_press (50, 10))
       = Inr (start_first_gui\<lparr>graph := on_node cell_set_barrier (0, 1) (graph start_first_gui)\<rparr>)
   \<and> handle_event cancelled start_first_gui (left_press (10, 10)) = Inr start_first_gui"
proof -
  have a: "pressed0 (left_press xy)" "mouse_pos (left_press xy) = xy" for xy
    by (simp_all add: left_press_def)
  have s: "graph start_first_gui = set_start (Graph 2 40) (0, 0)"
    by (simp add: start_first_gui_def)
  have f: "start (set_start (Graph 2 40) (0, 0)) = Some (0, 0)"
    "end_node (set_start (Graph 2 40) (0, 0)) = None"
    "paths (set_start (Graph 2 40) (0, 0)) = False"
    by (simp_all add: set_start_def)
  from left_press_effect [of "left_press (10, 10)" small_gui "(0, 0)" "Graph 2 40" cancelled]
  have "handle_event cancelled small_gui (left_press (10, 10)) = Inr start_first_gui"
    by (simp add: a clicked_small start_first_gui_def)
  moreover
  from left_press_effect [of "left_press (50, 10)" start_first_gui "(0, 1)"
      "set_start (Graph 2 40) (0, 0)" cancelled]
  have "handle_event cancelled start_first_gui (left_press (50, 10))
       = Inr (start_first_gui\<lparr>graph := on_node cell_set_barrier (0, 1) (graph start_first_gui)\<rparr>)"
    by (simp add: a clicked_small_more s f)
  moreover
  from left_press_effect [of "left_press (10, 10)" start_first_gui "(0, 0)"
      "set_start (Graph 2 40) (0, 0)" cancelled]
  have "handle_event cancelled start_first_gui (left_press (10, 10)) = Inr start_first_gui"
    by (simp add: a clicked_small_more s f)
  ultimately show ?thesis
    by simp
qed

text \<open>
  C3 as stated fails. On the fresh grid of \<open>GUI(5, 100)\<close> a press of the middle button on
  the cell \<open>(0, 0)\<close> makes it the end; no start cell is designated then, and a press of the
  left button on the same cell leaves it the end cell instead of making it the start.
\<close>

theorem left_press_on_end_sets_no_start:
  "handle_event cancelled small_gui (middle_press (10, 10)) = Inr end_first_gui
   \<and> start (graph end_first_gui) = None
   \<and> clicked end_first_gui (10, 10) = Inr (0, 0)
   \<and> handle_event cancelled end_first_gui (left_press (10, 10)) = Inr end_first_gui
   \<and> state_at (graph end_first_gui) (0, 0) = END"
proof -
  have "handle_event cancelled small_gui (middle_press (10, 10)) = Inr end_first_gui"
    by (simp add: handle_event_def middle_press_def clicked_small middle_click_def
        end_first_gui_def state_at_def cell_at_def grid_small Let_def set_end_def)
  moreover have "left_click (graph end_first_gui) (0, 0) = graph end_first_gui"
    by (simp add: left_click_def end_first_gui_def set_end_def)
  then have "handle_event cancelled end_first_gui (left_press (10, 10)) = Inr end_first_gui"
    by (simp add: handle_event_left left_press_def clicked_small_more)
  moreover have "state_at (graph end_first_gui) (0, 0) = END"
    by (simp add: end_first_gui_def state_at_set_end in_grid_def grid_small)
  moreover have "start (graph end_first_gui) = None"
    by (simp add: end_first_gui_def set_end_def)
  ultimately show ?thesis
    by (simp add: clicked_small_more)
qed

subsection \<open>C4: the middle button\<close>

text \<open>
  C4, as the code has it. For every press of the middle button (the left button being up)
  on a cell of the grid, the clicked cell becomes the end cell if and only if no end cell
  is designated, the clicked cell is not the start cell, and the clicked cell is not in
  state \<open>BARRIER\<close>: then \<open>set_end\<close> assigns the reference and sets the state \<open>END\<close>, and
  \<open>mark_path(False)\<close> follows when a computed path exists, which leaves the reference in
  place. In every other case the press changes nothing.
\<close>

theorem middle_press_effect:
  assumes "\<not> pressed0 e" and "pressed1 e" and "clicked u (mouse_pos e) = Inr p" and "graph u = g"
  shows "(end_node g = None \<and> start g \<noteq> Some p \<and> state_at g p \<noteq> BARRIER
            \<longrightarrow> handle_event A u e
                  = Inr (u\<lparr>graph := if paths g then mark_path False (set_end g p) else set_end g p\<rparr>)
                \<and> end_node (set_end g p) = Some p \<and> state_at (set_end g p) p = END
                \<and> end_node (mark_path False (set_end g p)) = Some p)
       \<and> (end_node g \<noteq> None \<or> start g = Some p \<or> state_at g p = BARRIER
            \<longrightarrow> handle_event A u e = Inr u)"
proof -
  have h: "handle_event A u e = Inr (u\<lparr>graph := middle_click g p\<rparr>)"
    using assms handle_event_middle [of e u p A] by simp
  have i: "in_grid (grid g) p"
    using assms clicked_in_grid [of u "mouse_pos e" p] by simp
  have same: "u\<lparr>graph := g\<rparr> = u"
    using assms(4) by auto
  have p: "paths (set_end g p) = paths g"
    by (simp add: set_end_def)
  show ?thesis
    using i same by (auto simp add: h p middle_click_def Let_def state_at_on_node set_end_def)
qed

text \<open>
  The theorem on the grid of \<open>GUI(5, 100)\<close>: the first press sets the end, the second one
  changes nothing.
\<close>

theorem middle_press_effect_witness:
  "handle_event cancelled small_gui (middle_press (10, 10)) = Inr end_first_gui
   \<and> handle_event cancelled end_first_gui (middle_press (10, 10)) = Inr end_first_gui"
proof -
  have a: "\<not> pressed0 (middle_press xy)" "pressed1 (middle_press xy)"
    "mouse_pos (middle_press xy) = xy" for xy
    by (simp_all add: middle_press_def)
  have s: "graph end_first_gui = set_end (Graph 2 40) (0, 0)"
    by (simp add: end_first_gui_def)
  have empty: "state_at (Graph 2 40) (0, 0) \<noteq> BARRIER"
    by (simp add: state_at_def cell_at_def grid_small)
  from middle_press_effect [of "middle_press (10, 10)" small_gui "(0, 0)" "Graph 2 40" cancelled]
  have "handle_event cancelled small_gui (middle_press (10, 10)) = Inr end_first_gui"
    by (simp add: a clicked_small empty end_first_gui_def)
  moreover
  from middle_press_effect [of "middle_press (10, 10)" end_first_gui "(0, 0)"
      "set_end (Graph 2 40) (0, 0)" cancelled]
  have "handle_event cancelled end_first_gui (middle_press (10, 10)) = Inr end_first_gui"
    by (simp add: a clicked_small_more s set_end_def)
  ultimately show ?thesis
    by simp
qed

text \<open>
  C4 as stated fails. On the grid of \<open>GUI(5, 100)\<close> whose cell \<open>(0, 0)\<close> is the start, no
  end cell is designated and the cell \<open>(0, 0)\<close> is not a barrier, but a press of the middle
  button on it does not make it the end: nothing changes.
\<close>

theorem middle_press_on_start_sets_no_end:
  "handle_event cancelled small_gui (left_press (10, 10)) = Inr start_first_gui
   \<and> end_node (graph start_first_gui) = None
   \<and> clicked start_first_gui (10, 10) = Inr (0, 0)
   \<and> state_at (graph start_first_gui) (0, 0) = START
   \<and> handle_event cancelled start_first_gui (middle_press (10, 10)) = Inr start_first_gui"
proof -
  have "handle_event cancelled small_gui (left_press (10, 10)) = Inr start_first_gui"
    by (simp add: handle_event_def left_press_def clicked_small left_click_def
        start_first_gui_def)
  moreover have "middle_click (graph start_first_gui) (0, 0) = graph start_first_gui"
    by (simp add: middle_click_def start_first_gui_def set_start_def)
  then have "handle_event cancelled start_first_gui (middle_press (10, 10)) = Inr start_first_gui"
    by (simp add: handle_event_middle middle_press_def clicked_small_more)
  moreover have "state_at (graph start_first_gui) (0, 0) = START"
    by (simp add: start_first_gui_def state_at_set_start in_grid_def grid_small)
  moreover have "end_node (graph start_first_gui) = None"
    by (simp add: start_first_gui_def set_start_def)
  ultimately show ?thesis
    by (simp add: clicked_small_more)
qed

subsection \<open>C1: pointer events while a path exists\<close>

lemma found_fields [simp]:
  "vertex_width found_gui = 40" "graph found_gui = found_graph"
  "start found_graph = Some (0, 0)" "end_node found_graph = Some (1, 1)" "paths found_graph"
  by (simp_all add: found_gui_def found_graph_def small_gui_def)

lemma clicked_found:
  "clicked found_gui (50, 50) = Inr (1, 1)"
  "clicked found_gui (50, 10) = Inr (0, 1)"
  "clicked found_gui (10, 50) = Inr (1, 0)"
  "clicked found_gui (10, 10) = Inr (0, 0)"
  "clicked (found_gui\<lparr>graph := end_deleted_graph\<rparr>) (10, 50) = Inr (1, 0)"
  by (simp_all add: clicked_def get_click_pos_def lookup_def py_index_def found_graph_def
      end_deleted_graph_def found_gui_def small_gui_def)

lemma right_click_found: "right_click found_graph (1, 1) = end_deleted_graph"
  by code_simp

lemma middle_click_end_deleted: "middle_click end_deleted_graph (1, 0) = end_moved_graph"
  by code_simp


lemma state_found: "state_at found_graph (1, 1) = END"
  by code_simp

lemma press_fields [simp]:
  "pressed0 (left_press xy)" "mouse_pos (left_press xy) = xy"
  "\<not> pressed0 (middle_press xy)" "pressed1 (middle_press xy)" "mouse_pos (middle_press xy) = xy"
  "\<not> pressed0 (right_press xy)" "\<not> pressed1 (right_press xy)" "pressed2 (right_press xy)"
  "mouse_pos (right_press xy) = xy"
  "\<not> pressed0 (key_press k)" "\<not> pressed1 (key_press k)" "\<not> pressed2 (key_press k)"
  "etype (key_press k) = KEYDOWN k"
  by (simp_all add: left_press_def middle_press_def right_press_def key_press_def)

lemma states_found:
  "state_at found_graph (1, 1) = END" "state_at found_graph (0, 0) = START"
  "state_at end_deleted_graph (1, 1) = CLOSED"
  by code_simp+

text \<open>
  C1, as the code has it. While a computed path exists, a pointer event on a cell of the
  grid leaves the grid, the start reference and the end reference unchanged in these cases:
  a press of the left button when a start cell is designated or the clicked cell is the end
  cell; a press of the middle button when an end cell is designated, or the clicked cell is
  the start cell or a barrier; a press of the right button on a cell that is not in state
  \<open>END\<close>. So no press of the left button places a barrier, and no press of the right
  button clears a start cell or a barrier. The end cell stays editable: a press of the
  middle button when no end cell is designated, on a cell that is neither the start nor a
  barrier, makes that cell the end and runs \<open>mark_path(False)\<close>; a press of the right
  button on a cell in state \<open>END\<close> is the subject of C10. A press of the left button when
  no start cell is designated, on a cell other than the end, sets the start.
\<close>

theorem pointer_event_with_path:
  assumes "paths g" and "graph u = g" and "clicked u (mouse_pos e) = Inr p"
  shows "(pressed0 e \<and> (start g \<noteq> None \<or> end_node g = Some p) \<longrightarrow> handle_event A u e = Inr u)
       \<and> (pressed0 e \<and> start g = None \<and> end_node g \<noteq> Some p
            \<longrightarrow> handle_event A u e = Inr (u\<lparr>graph := set_start g p\<rparr>))
       \<and> (\<not> pressed0 e \<and> pressed1 e
             \<and> (end_node g \<noteq> None \<or> start g = Some p \<or> state_at g p = BARRIER)
            \<longrightarrow> handle_event A u e = Inr u)
       \<and> (\<not> pressed0 e \<and> pressed1 e
             \<and> end_node g = None \<and> start g \<noteq> Some p \<and> state_at g p \<noteq> BARRIER
            \<longrightarrow> handle_event A u e = Inr (u\<lparr>graph := mark_path False (set_end g p)\<rparr>))
       \<and> (\<not> pressed0 e \<and> \<not> pressed1 e \<and> pressed2 e \<and> state_at g p \<noteq> END
            \<longrightarrow> handle_event A u e = Inr u)"
proof -
  have same: "u\<lparr>graph := g\<rparr> = u"
    using assms(2) by auto
  have l: "pressed0 e \<Longrightarrow> handle_event A u e = Inr (u\<lparr>graph := left_click g p\<rparr>)"
    using assms handle_event_left [of e u p A] by simp
  have m: "\<not> pressed0 e \<Longrightarrow> pressed1 e
      \<Longrightarrow> handle_event A u e = Inr (u\<lparr>graph := middle_click g p\<rparr>)"
    using assms handle_event_middle [of e u p A] by simp
  have r: "\<not> pressed0 e \<Longrightarrow> \<not> pressed1 e \<Longrightarrow> pressed2 e
      \<Longrightarrow> handle_event A u e = Inr (u\<lparr>graph := right_click g p\<rparr>)"
    using assms handle_event_right [of e u p A] by simp
  have ps: "paths (set_end g p)"
    using assms(1) by (simp add: set_end_def)
  have "pressed0 e \<and> (start g \<noteq> None \<or> end_node g = Some p) \<longrightarrow> handle_event A u e = Inr u"
    using assms(1) same l by (auto simp add: left_click_def)
  moreover have "pressed0 e \<and> start g = None \<and> end_node g \<noteq> Some p
      \<longrightarrow> handle_event A u e = Inr (u\<lparr>graph := set_start g p\<rparr>)"
    using l by (auto simp add: left_click_def)
  moreover have "\<not> pressed0 e \<and> pressed1 e
      \<and> (end_node g \<noteq> None \<or> start g = Some p \<or> state_at g p = BARRIER)
      \<longrightarrow> handle_event A u e = Inr u"
    using same m by (auto simp add: middle_click_def)
  moreover have "\<not> pressed0 e \<and> pressed1 e
      \<and> end_node g = None \<and> start g \<noteq> Some p \<and> state_at g p \<noteq> BARRIER
      \<longrightarrow> handle_event A u e = Inr (u\<lparr>graph := mark_path False (set_end g p)\<rparr>)"
    using m ps by (auto simp add: middle_click_def Let_def)
  moreover have "\<not> pressed0 e \<and> \<not> pressed1 e \<and> pressed2 e \<and> state_at g p \<noteq> END
      \<longrightarrow> handle_event A u e = Inr u"
    using assms(1) same r by (auto simp add: right_click_def)
  ultimately show ?thesis
    by blast
qed

text \<open>
  The theorem on the grid \<open>found_graph\<close>, whose path is computed: a press of the left button
  on a path cell, of the middle button on a closed cell, and of the right button on the
  start cell change nothing.
\<close>

theorem pointer_event_with_path_witness:
  "handle_event cancelled found_gui (left_press (50, 10)) = Inr found_gui
   \<and> handle_event cancelled found_gui (middle_press (10, 50)) = Inr found_gui
   \<and> handle_event cancelled found_gui (right_press (10, 10)) = Inr found_gui"
proof -
  from pointer_event_with_path [of found_graph found_gui "left_press (50, 10)" "(0, 1)" cancelled]
  have "handle_event cancelled found_gui (left_press (50, 10)) = Inr found_gui"
    by (simp add: clicked_found del: One_nat_def)
  moreover
  from pointer_event_with_path [of found_graph found_gui "middle_press (10, 50)" "(1, 0)" cancelled]
  have "handle_event cancelled found_gui (middle_press (10, 50)) = Inr found_gui"
    by (simp add: clicked_found del: One_nat_def)
  moreover
  from pointer_event_with_path [of found_graph found_gui "right_press (10, 10)" "(0, 0)" cancelled]
  have "handle_event cancelled found_gui (right_press (10, 10)) = Inr found_gui"
    by (simp add: clicked_found states_found del: One_nat_def)
  ultimately show ?thesis
    by simp
qed

text \<open>
  C1 as stated fails. On \<open>found_graph\<close> a computed path exists; a press of the right button
  on the end cell \<open>(1, 1)\<close> sets the cell to \<open>CLOSED\<close> and clears the end reference, and a
  press of the middle button on the cell \<open>(1, 0)\<close> then assigns a new end, the flag being
  set all the while.
\<close>

theorem end_cell_edited_while_path_exists:
  "paths (graph found_gui)
   \<and> end_node (graph found_gui) = Some (1, 1)
   \<and> state_at (graph found_gui) (1, 1) = END
   \<and> handle_event cancelled found_gui (right_press (50, 50))
       = Inr (found_gui\<lparr>graph := end_deleted_graph\<rparr>)
   \<and> end_node end_deleted_graph = None
   \<and> state_at end_deleted_graph (1, 1) = CLOSED
   \<and> paths end_deleted_graph
   \<and> handle_event cancelled (found_gui\<lparr>graph := end_deleted_graph\<rparr>) (middle_press (10, 50))
       = Inr (found_gui\<lparr>graph := end_moved_graph\<rparr>)
   \<and> end_node end_moved_graph = Some (1, 0)"
proof -
  have "handle_event cancelled found_gui (right_press (50, 50))
       = Inr (found_gui\<lparr>graph := end_deleted_graph\<rparr>)"
    by (simp add: handle_event_right clicked_found right_click_found del: One_nat_def)
  moreover have "handle_event cancelled (found_gui\<lparr>graph := end_deleted_graph\<rparr>) (middle_press (10, 50))
       = Inr (found_gui\<lparr>graph := end_moved_graph\<rparr>)"
    by (simp add: handle_event_middle clicked_found middle_click_end_deleted del: One_nat_def)
  moreover have "end_node end_deleted_graph = None" "paths end_deleted_graph"
    by (simp_all add: end_deleted_graph_def)
  moreover have "end_node end_moved_graph = Some (1, 0)"
    by (simp add: end_moved_graph_def)
  ultimately show ?thesis
    by (simp add: states_found del: One_nat_def)
qed

subsection \<open>C10: deleting the end cell while a path exists\<close>



subsection \<open>C5 and C7: the keys\<close>

lemma is_reset_reset: "is_reset (reset g)"
  by (simp add: is_reset_def reset_def list_all_iff)

lemma key_down_maze: "key_down A g K_m = generate_maze A (reset g)"
  by (simp add: key_down_def)

lemma key_down_agree:
  assumes "a_star A' = a_star A" and "dijkstra A' = dijkstra A"
    and "reset_discovered A' = reset_discovered A"
    and "\<forall>g. is_reset g \<longrightarrow> generate_maze A' g = generate_maze A g"
  shows "key_down A' g k = key_down A g k"
  using assms is_reset_reset [of g] by (simp add: key_down_def)

lemma handle_event_agree:
  assumes "\<And>g k. key_down A' g k = key_down A g k"
  shows "handle_event A' u e = handle_event A u e"
  using assms by (simp add: handle_event_def split: event_type.splits)

lemma sample_run_fields [simp]:
  "a_star sample_run = first_expansion" "dijkstra sample_run = first_expansion"
  "generate_maze sample_run = on_node cell_set_barrier (0, 1)"
  "reset_discovered sample_run = clear_discovered"
  by (simp_all add: sample_run_def)

lemma first_fields [simp]:
  "graph start_first_gui = set_start (Graph 2 40) (0, 0)"
  "start (set_start g p) = Some p" "end_node (set_start g p) = end_node g"
  "end_node (first_expansion g) = end_node g"
  by (simp_all add: start_first_gui_def set_start_def first_expansion_def)

text \<open>
  C5, as the code has it. For every key press that is handled while no button is down, and
  so reaches the key branch: the key \<open>a\<close> runs the A* search, followed by
  \<open>mark_path(False)\<close> when an end cell is designated afterwards, only when both a start and an
  end cell are designated, and the key \<open>d\<close> runs the Dijkstra search, followed likewise, only
  when a start cell is designated; pressing either key without the required cells changes
  nothing and runs nothing, whatever the algorithms are.
\<close>

theorem search_keys:
  assumes "\<not> pressed0 e" and "\<not> pressed1 e" and "\<not> pressed2 e" and "graph u = g"
  shows "(etype e = KEYDOWN K_a \<and> start g \<noteq> None \<and> end_node g \<noteq> None
            \<longrightarrow> handle_event A u e
                  = Inr (u\<lparr>graph := if end_node (a_star A g) \<noteq> None
                                      then mark_path False (a_star A g) else a_star A g\<rparr>))
       \<and> (etype e = KEYDOWN K_a \<and> (start g = None \<or> end_node g = None)
            \<longrightarrow> handle_event A u e = Inr u)
       \<and> (etype e = KEYDOWN K_d \<and> start g \<noteq> None
            \<longrightarrow> handle_event A u e
                  = Inr (u\<lparr>graph := if end_node (dijkstra A g) \<noteq> None
                                      then mark_path False (dijkstra A g) else dijkstra A g\<rparr>))
       \<and> (etype e = KEYDOWN K_d \<and> start g = None \<longrightarrow> handle_event A u e = Inr u)"
proof -
  have same: "u\<lparr>graph := g\<rparr> = u"
    using assms(4) by auto
  have k: "etype e = KEYDOWN k \<Longrightarrow> handle_event A u e = Inr (u\<lparr>graph := key_down A g k\<rparr>)" for k
    using assms handle_event_key [of e k A u] by simp
  have "etype e = KEYDOWN K_a \<and> start g \<noteq> None \<and> end_node g \<noteq> None
      \<longrightarrow> handle_event A u e
          = Inr (u\<lparr>graph := if end_node (a_star A g) \<noteq> None
                              then mark_path False (a_star A g) else a_star A g\<rparr>)"
    using k [of K_a] by (auto simp add: key_down_def Let_def)
  moreover have "etype e = KEYDOWN K_a \<and> (start g = None \<or> end_node g = None)
      \<longrightarrow> handle_event A u e = Inr u"
    using k [of K_a] same by (auto simp add: key_down_def)
  moreover have "etype e = KEYDOWN K_d \<and> start g \<noteq> None
      \<longrightarrow> handle_event A u e
          = Inr (u\<lparr>graph := if end_node (dijkstra A g) \<noteq> None
                              then mark_path False (dijkstra A g) else dijkstra A g\<rparr>)"
    using k [of K_d] by (auto simp add: key_down_def Let_def)
  moreover have "etype e = KEYDOWN K_d \<and> start g = None \<longrightarrow> handle_event A u e = Inr u"
    using k [of K_d] same by (auto simp add: key_down_def)
  ultimately show ?thesis
    by blast
qed

text \<open>
  The theorem on the grid of \<open>GUI(5, 100)\<close>: without a start neither key does anything; with
  the start \<open>(0, 0)\<close> and no end the key \<open>a\<close> does nothing and the key \<open>d\<close> runs the search;
  with both cells designated the key \<open>a\<close> runs the search and \<open>mark_path(False)\<close>.
\<close>

theorem search_keys_witness:
  "handle_event sample_run small_gui (key_press K_a) = Inr small_gui
   \<and> handle_event sample_run small_gui (key_press K_d) = Inr small_gui
   \<and> handle_event sample_run start_first_gui (key_press K_a) = Inr start_first_gui
   \<and> handle_event sample_run start_first_gui (key_press K_d)
       = Inr (start_first_gui\<lparr>graph := first_expansion (graph start_first_gui)\<rparr>)
   \<and> handle_event sample_run found_gui (key_press K_a)
       = Inr (found_gui\<lparr>graph := mark_path False (first_expansion found_graph)\<rparr>)"
proof -
  from search_keys [of "key_press K_a" small_gui "Graph 2 40" sample_run]
  have "handle_event sample_run small_gui (key_press K_a) = Inr small_gui"
    by simp
  moreover
  from search_keys [of "key_press K_d" small_gui "Graph 2 40" sample_run]
  have "handle_event sample_run small_gui (key_press K_d) = Inr small_gui"
    by simp
  moreover
  from search_keys [of "key_press K_a" start_first_gui "set_start (Graph 2 40) (0, 0)" sample_run]
  have "handle_event sample_run start_first_gui (key_press K_a) = Inr start_first_gui"
    by simp
  moreover
  from search_keys [of "key_press K_d" start_first_gui "set_start (Graph 2 40) (0, 0)" sample_run]
  have "handle_event sample_run start_first_gui (key_press K_d)
       = Inr (start_first_gui\<lparr>graph := first_expansion (graph start_first_gui)\<rparr>)"
    by simp
  moreover
  from search_keys [of "key_press K_a" found_gui found_graph sample_run]
  have "handle_event sample_run found_gui (key_press K_a)
       = Inr (found_gui\<lparr>graph := mark_path False (first_expansion found_graph)\<rparr>)"
    by simp
  ultimately show ?thesis
    by simp
qed

text \<open>
  C5 as stated fails. The handler polls the buttons before it looks at the type of the
  event, so a key that goes down while a button is held is handled as a press of that
  button. On the fresh grid of \<open>GUI(5, 100)\<close>, where neither a start nor an end is designated,
  the key \<open>a\<close> or the key \<open>d\<close> with the left button held over the cell \<open>(0, 0)\<close> makes that cell
  the start instead of changing nothing.
\<close>

lemma state_at_Graph_00: "state_at (Graph 2 40) (0, 0) = EMPTY"
  by (simp add: state_at_def cell_at_def grid_small)

theorem key_with_button_held_edits_grid:
  "start (graph small_gui) = None
   \<and> end_node (graph small_gui) = None
   \<and> state_at (graph small_gui) (0, 0) = EMPTY
   \<and> handle_event cancelled small_gui
        \<lparr>etype = KEYDOWN K_a, pressed0 = True, pressed1 = False, pressed2 = False,
         mouse_pos = (10, 10)\<rparr>
      = Inr start_first_gui
   \<and> handle_event cancelled small_gui
        \<lparr>etype = KEYDOWN K_d, pressed0 = True, pressed1 = False, pressed2 = False,
         mouse_pos = (10, 10)\<rparr>
      = Inr start_first_gui
   \<and> start (graph start_first_gui) = Some (0, 0)
   \<and> state_at (graph start_first_gui) (0, 0) = START"
proof -
  have l: "left_click (Graph 2 40) (0, 0) = set_start (Graph 2 40) (0, 0)"
    by (simp add: left_click_def)
  have "handle_event cancelled small_gui
        \<lparr>etype = KEYDOWN k, pressed0 = True, pressed1 = False, pressed2 = False,
         mouse_pos = (10, 10)\<rparr>
      = Inr start_first_gui" for k
    by (simp add: handle_event_left clicked_small l start_first_gui_def)
  moreover have "state_at (graph small_gui) (0, 0) = EMPTY"
    by (simp add: state_at_Graph_00)
  moreover have "state_at (graph start_first_gui) (0, 0) = START"
    by (simp add: state_at_set_start in_grid_def grid_small)
  ultimately show ?thesis
    by simp
qed

text \<open>
  C7. For every press of the key \<open>m\<close> (no button being down), the full reset is performed
  first and the maze is generated on the graph that it leaves: every cell empty, no start,
  no end, no path. Maze generation is never run on a graph that is not reset: whatever the
  event, the handler's result does not depend on what \<open>generate_maze\<close> would do to such a
  graph.
\<close>

theorem maze_key_resets_first:
  "(\<not> pressed0 e \<and> \<not> pressed1 e \<and> \<not> pressed2 e \<and> etype e = KEYDOWN K_m
      \<longrightarrow> handle_event A u e = Inr (u\<lparr>graph := generate_maze A (reset (graph u))\<rparr>))
   \<and> is_reset (reset (graph u))
   \<and> (a_star A' = a_star A \<and> dijkstra A' = dijkstra A
        \<and> reset_discovered A' = reset_discovered A
        \<and> (\<forall>g. is_reset g \<longrightarrow> generate_maze A' g = generate_maze A g)
      \<longrightarrow> handle_event A' u e = handle_event A u e)"
proof (intro conjI impI)
  assume "\<not> pressed0 e \<and> \<not> pressed1 e \<and> \<not> pressed2 e \<and> etype e = KEYDOWN K_m"
  then show "handle_event A u e = Inr (u\<lparr>graph := generate_maze A (reset (graph u))\<rparr>)"
    using handle_event_key [of e K_m A u] by (simp add: key_down_maze)
next
  show "is_reset (reset (graph u))"
    by (rule is_reset_reset)
next
  assume "a_star A' = a_star A \<and> dijkstra A' = dijkstra A
        \<and> reset_discovered A' = reset_discovered A
        \<and> (\<forall>g. is_reset g \<longrightarrow> generate_maze A' g = generate_maze A g)"
  then have "key_down A' g k = key_down A g k" for g k
    using key_down_agree [of A' A g k] by blast
  then show "handle_event A' u e = handle_event A u e"
    by (rule handle_event_agree)
qed

text \<open>The theorem at a press of \<open>m\<close> on \<open>found_graph\<close>, whose path is computed.\<close>

theorem maze_key_resets_first_witness:
  "handle_event sample_run found_gui (key_press K_m)
     = Inr (found_gui\<lparr>graph := on_node cell_set_barrier (0, 1) (reset found_graph)\<rparr>)
   \<and> is_reset (reset found_graph)
   \<and> handle_event
        (sample_run\<lparr>generate_maze :=
           \<lambda>g. if is_reset g then on_node cell_set_barrier (0, 1) g else g\<rparr>)
        found_gui (key_press K_m)
      = handle_event sample_run found_gui (key_press K_m)"
  using maze_key_resets_first [of "key_press K_m" sample_run found_gui
      "sample_run\<lparr>generate_maze := \<lambda>g. if is_reset g then on_node cell_set_barrier (0, 1) g else g\<rparr>"]
  by simp

subsection \<open>C9: the constructor\<close>

text \<open>
  The rounding of the model is Python's: the result is an integer nearest to the quotient,
  and the even one of the two when the quotient lies half-way between them.
\<close>

lemma py_round_div_2:
  "py_round_div n 2 = (if even n then n div 2 else if even (n div 2) then n div 2 else n div 2 + 1)"
proof -
  have "n mod 2 = 0 \<or> n mod 2 = 1"
    by presburger
  then show ?thesis
    by (auto simp add: py_round_div_def Let_def)
qed

lemma py_round_div_2_half: "\<bar>2 * py_round_div n 2 - n\<bar> \<le> 1"
  unfolding py_round_div_2 by presburger

lemma py_round_div_2_even: "even n \<Longrightarrow> 2 * py_round_div n 2 = n"
  unfolding py_round_div_2 by presburger

lemma py_round_div_nearest:
  assumes "b \<noteq> 0"
  shows "2 * \<bar>py_round_div a b * b - a\<bar> \<le> \<bar>b\<bar>"
proof -
  define q r where "q = a div b" and "r = a mod b"
  have a: "a = q * b + r"
    by (simp add: q_def r_def)
  have r: "(0 < b \<and> 0 \<le> r \<and> r < b) \<or> (b < 0 \<and> b < r \<and> r \<le> 0)"
    using assms by (cases "0 < b") (simp_all add: r_def)
  have keep: "2 * \<bar>r\<bar> \<le> \<bar>b\<bar> \<Longrightarrow> 2 * \<bar>q * b - a\<bar> \<le> \<bar>b\<bar>"
    using a by simp
  have up: "\<bar>b\<bar> \<le> 2 * \<bar>r\<bar> \<Longrightarrow> 2 * \<bar>(q + 1) * b - a\<bar> \<le> \<bar>b\<bar>"
  proof -
    assume h: "\<bar>b\<bar> \<le> 2 * \<bar>r\<bar>"
    have "(q + 1) * b - a = b - r"
      using a by (simp add: algebra_simps)
    then show ?thesis
      using r h by auto
  qed
  show ?thesis
    using keep up
    by (auto simp add: py_round_div_def Let_def q_def [symmetric] r_def [symmetric])
qed

lemma py_round_div_tie:
  assumes "b \<noteq> 0" and "2 * \<bar>a mod b\<bar> = \<bar>b\<bar>"
  shows "even (py_round_div a b)"
  using assms by (auto simp add: py_round_div_def Let_def)

lemma GUI_zero_rows: "GUI 0 w = Inl ZeroDivisionError"
  by (simp add: GUI_def Let_def)

lemma Graph_square:
  "length (grid (Graph n w)) = nat n"
  "r < nat n \<Longrightarrow> length (grid (Graph n w) ! r) = nat n"
  by (simp_all add: Graph_def)

lemma py_round_div_tie_even:
  assumes "0 < b" and "2 * \<bar>py_round_div a b * b - a\<bar> = b"
  shows "even (py_round_div a b)"
proof -
  define q r where "q = a div b" and "r = a mod b"
  have a: "a = q * b + r"
    by (simp add: q_def r_def)
  have r: "0 \<le> r \<and> r < b"
    using assms(1) by (simp add: r_def)
  have up: "(q + 1) * b - a = b - r"
    using a by (simp add: algebra_simps)
  have down: "q * b - a = - r"
    using a by simp
  show ?thesis
    using assms r up down
    by (auto simp add: py_round_div_def Let_def q_def [symmetric] r_def [symmetric]
        split: if_splits)
qed

lemma py_round_div_2_odd: "odd n \<Longrightarrow> even (py_round_div n 2)"
  unfolding py_round_div_2 by presburger

text \<open>
  C9. Every construction \<open>GUI(rows, width)\<close> with positive arguments below \<open>2 ^ 52\<close> (a
  window that pygame can open, and sizes for which the float division rounds as the exact
  quotient does) creates the graph with \<open>round(rows / 2)\<close> rows, and as many columns, and
  with the cell width \<open>2 * round(width / rows)\<close>, while its attribute \<open>columns\<close> is the full
  argument \<open>rows\<close>. The rounding is stated by what determines it: the number of rows \<open>r\<close> is
  an integer nearest to \<open>rows / 2\<close>, the even one when \<open>rows\<close> is odd, and the cell width is
  \<open>2 * k\<close> for an integer \<open>k\<close> nearest to \<open>width / rows\<close>, the even one in a tie. So the grid has
  half as many rows as the argument says: exactly half for an even argument, and half
  rounded to the even neighbour otherwise.
\<close>

theorem GUI_dimensions:
  assumes "0 < n" and "n < 2 ^ 52" and "0 < w" and "w < 2 ^ 52"
  shows "\<exists>u r k. GUI n w = Inr u
           \<and> rows u = r \<and> columns u = n \<and> width u = w \<and> vertex_width u = 2 * k
           \<and> graph u = Graph r (2 * k)
           \<and> length (grid (graph u)) = nat r
           \<and> list_all (\<lambda>row. length row = nat r) (grid (graph u))
           \<and> \<bar>2 * r - n\<bar> \<le> 1 \<and> (odd n \<longrightarrow> even r)
           \<and> 2 * \<bar>k * n - w\<bar> \<le> n \<and> (2 * \<bar>k * n - w\<bar> = n \<longrightarrow> even k)
           \<and> (even n \<longrightarrow> 2 * rows u = columns u)"
proof -
  let ?r = "py_round_div n 2"
  let ?k = "py_round_div w n"
  let ?u = "\<lparr>rows = ?r, columns = n, width = w, vertex_width = 2 * ?k, graph = Graph ?r (2 * ?k)\<rparr>"
  have "GUI n w = Inr ?u"
    using assms(1) by (simp add: GUI_def Let_def)
  moreover have "list_all (\<lambda>row. length row = nat ?r) (grid (graph ?u))"
    by (simp add: list_all_iff Graph_def)
  moreover have "length (grid (graph ?u)) = nat ?r"
    by (simp add: Graph_square)
  moreover have "\<bar>2 * ?r - n\<bar> \<le> 1"
    by (rule py_round_div_2_half)
  moreover have "odd n \<longrightarrow> even ?r"
    by (simp add: py_round_div_2_odd)
  moreover have "2 * \<bar>?k * n - w\<bar> \<le> n"
    using py_round_div_nearest [of n w] assms(1) by simp
  moreover have "2 * \<bar>?k * n - w\<bar> = n \<longrightarrow> even ?k"
    using py_round_div_tie_even [of n w] assms(1) by simp
  moreover have "even n \<longrightarrow> 2 * rows ?u = columns ?u"
    using py_round_div_2_even [of n] by simp
  ultimately show ?thesis
    by (intro exI [of _ ?u] exI [of _ ?r] exI [of _ ?k]) simp
qed

text \<open>
  The theorem at \<open>GUI(7, 25)\<close> and at \<open>GUI(6, 15)\<close>, where rounding and floor division differ:
  \<open>7 / 2\<close> is rounded up to the even 4 and \<open>25 / 7\<close> up to 4, \<open>15 / 6\<close> down to the even 2. The
  values follow from the theorem alone.
\<close>

theorem GUI_dimensions_witness:
  "(\<exists>u. GUI 7 25 = Inr u \<and> rows u = 4 \<and> columns u = 7 \<and> vertex_width u = 8
        \<and> graph u = Graph 4 8 \<and> length (grid (graph u)) = 4)
   \<and> (\<exists>u. GUI 6 15 = Inr u \<and> rows u = 3 \<and> columns u = 6 \<and> vertex_width u = 4
        \<and> graph u = Graph 3 4 \<and> length (grid (graph u)) = 3)"
proof -
  have a: "\<exists>u. GUI 7 25 = Inr u \<and> rows u = 4 \<and> columns u = 7 \<and> vertex_width u = 8
        \<and> graph u = Graph 4 8 \<and> length (grid (graph u)) = 4"
  proof -
    from GUI_dimensions [of 7 25] obtain u r k where g: "GUI 7 25 = Inr u"
      and u: "rows u = r" "columns u = 7" "vertex_width u = 2 * k" "graph u = Graph r (2 * k)"
        "length (grid (graph u)) = nat r"
      and r: "\<bar>2 * r - 7\<bar> \<le> 1" "even r"
      and k: "2 * \<bar>k * 7 - 25\<bar> \<le> 7"
      by auto
    from r have "r = 4"
      by presburger
    moreover from k have "k = 4"
      by arith
    ultimately show ?thesis
      using g u by simp
  qed
  have b: "\<exists>u. GUI 6 15 = Inr u \<and> rows u = 3 \<and> columns u = 6 \<and> vertex_width u = 4
        \<and> graph u = Graph 3 4 \<and> length (grid (graph u)) = 3"
  proof -
    from GUI_dimensions [of 6 15] obtain u r k where g: "GUI 6 15 = Inr u"
      and u: "rows u = r" "columns u = 6" "vertex_width u = 2 * k" "graph u = Graph r (2 * k)"
        "length (grid (graph u)) = nat r"
      and r: "2 * r = 6"
      and k: "2 * \<bar>k * 6 - 15\<bar> \<le> 6" "2 * \<bar>k * 6 - 15\<bar> = 6 \<longrightarrow> even k"
      by auto
    from r have "r = 3"
      by simp
    moreover from k have "k = 2"
      by presburger
    ultimately show ?thesis
      using g u by simp
  qed
  from a b show ?thesis
    by blast
qed

subsection \<open>C8: the main loop\<close>

text \<open>
  With its argument, \<open>draw\<close> renders one square for each cell, at the pixel position of the
  cell and of the width of a cell, and ticks the clock at the frame rate. The loop calls it
  without the argument, so every round in which the handler returns \<open>True\<close> ends in
  \<open>TypeError\<close>; only the round that meets \<open>QUIT\<close> completes.
\<close>

lemma loop_round_raises:
  "handle_events A u es = Inr (True, u') \<Longrightarrow> loop_iteration A u es = Inl TypeError"
  by (simp add: loop_iteration_def)

lemma loop_round_quit:
  "handle_events A u es = Inr (False, u') \<Longrightarrow> loop_iteration A u es = Inr (u', None)"
  by (simp add: loop_iteration_def)

lemma draw_with_fps:
  "\<exists>f. draw u [fps] = Inr f \<and> tick f = fps
     \<and> rects f = map (\<lambda>c. (state c, x_pos c, y_pos c, vertex_width u, vertex_width u))
                    (concat (grid (graph u)))"
  by (simp add: map_concat)

text \<open>
  C8 describes what the loop is meant to do, and the code does not do it: a round polls
  and handles the events and then calls \<open>self.draw()\<close>, but \<open>draw(self, fps)\<close> requires
  the frame rate. On the fresh \<open>GUI(5, 100)\<close> with no pending event the handler returns
  \<open>True\<close> and the first round of the loop raises \<open>TypeError\<close> instead of rendering.
\<close>

theorem first_round_raises_TypeError:
  "GUI 5 100 = Inr small_gui
   \<and> handle_events cancelled small_gui [] = Inr (True, small_gui)
   \<and> draw small_gui [] = Inl TypeError
   \<and> loop_iteration cancelled small_gui [] = Inl TypeError"
  by (simp add: GUI_5_100 loop_iteration_def)

subsection \<open>C6: the invariants\<close>

lemma set_nodes: "p \<in> set (nodes cs) \<longleftrightarrow> in_grid cs p"
  by (cases p) (force simp add: nodes_def in_grid_def)

lemma consistent_iff:
  "consistent g \<longleftrightarrow>
     (\<forall>p. in_grid (grid g) p \<longrightarrow> state_at g p = START \<longrightarrow> start g = Some p)
     \<and> (\<forall>p. in_grid (grid g) p \<longrightarrow> state_at g p = END \<longrightarrow> end_node g = Some p)
     \<and> (start g \<noteq> None \<longrightarrow> start g \<noteq> end_node g)
     \<and> (\<forall>p. in_grid (grid g) p \<longrightarrow> state_at g p = BARRIER
            \<longrightarrow> start g \<noteq> Some p \<and> end_node g \<noteq> Some p)"
  unfolding consistent_def Ball_def set_nodes by (rule refl)

lemma consistent_invariants: "consistent g \<Longrightarrow> invariants g"
proof -
  assume c: "consistent g"
  have one_start: "p = q" if "in_grid (grid g) p" "in_grid (grid g) q"
    "state_at g p = START" "state_at g q = START" for p q
    using c that unfolding consistent_iff by (metis option.inject)
  have one_end: "p = q" if "in_grid (grid g) p" "in_grid (grid g) q"
    "state_at g p = END" "state_at g q = END" for p q
    using c that unfolding consistent_iff by (metis option.inject)
  have rest: "(start g \<noteq> None \<longrightarrow> start g \<noteq> end_node g)
     \<and> (\<forall>p. in_grid (grid g) p \<longrightarrow> state_at g p = BARRIER
            \<longrightarrow> start g \<noteq> Some p \<and> end_node g \<noteq> Some p)"
    using c unfolding consistent_iff by blast
  show ?thesis
    unfolding invariants_def Ball_def set_nodes
    using one_start one_end rest by blast
qed

lemma in_grid_map [simp]: "in_grid (map (map f) cs) p = in_grid cs p"
  by (auto simp add: in_grid_def)

lemma cell_at_map: "in_grid cs p \<Longrightarrow> cell_at (map (map f) cs) p = f (cell_at cs p)"
  by (simp add: in_grid_def cell_at_def)

lemma state_at_Graph: "in_grid (grid (Graph n w)) p \<Longrightarrow> state_at (Graph n w) p = EMPTY"
  by (auto simp add: in_grid_def state_at_def cell_at_def Graph_def)

lemma consistent_Graph: "consistent (Graph n w)"
  unfolding consistent_iff
  by (auto simp add: state_at_Graph) (simp_all add: Graph_def)

lemma state_at_reset: "in_grid (grid g) p \<Longrightarrow> state_at (reset g) p = EMPTY"
  by (simp add: state_at_def reset_def cell_at_map)

lemma reset_fields [simp]:
  "start (reset g) = None" "end_node (reset g) = None" "paths (reset g) = False"
  "in_grid (grid (reset g)) p = in_grid (grid g) p"
  by (simp_all add: reset_def)

lemma consistent_reset: "consistent (reset g)"
  unfolding consistent_iff by (simp add: state_at_reset)

lemma consistent_mark_path: "consistent g \<Longrightarrow> consistent (mark_path m g)"
  unfolding consistent_iff
  using mark_path_state [of m g]
  by (simp; metis State.distinct)


lemma consistent_set_start:
  assumes "consistent g" and "start g = None" and "Some p \<noteq> end_node g"
  shows "consistent (set_start g p)"
  using assms unfolding consistent_iff
  by (auto simp add: set_start_def state_at_on_node)

lemma consistent_set_barrier:
  assumes "consistent g" and "Some p \<noteq> end_node g" and "Some p \<noteq> start g"
  shows "consistent (on_node cell_set_barrier p g)"
  using assms unfolding consistent_iff
  by (auto simp add: state_at_on_node)

lemma consistent_left_click: "consistent g \<Longrightarrow> consistent (left_click g p)"
  by (simp add: left_click_def consistent_set_start consistent_set_barrier)

lemma consistent_set_end:
  assumes "consistent g" and "end_node g = None" and "Some p \<noteq> start g"
    and "state_at g p \<noteq> BARRIER"
  shows "consistent (set_end g p)"
  using assms unfolding consistent_iff
  by (auto simp add: set_end_def state_at_on_node)

lemma consistent_middle_click: "consistent g \<Longrightarrow> consistent (middle_click g p)"
  by (simp add: middle_click_def Let_def consistent_set_end consistent_mark_path)

lemma consistent_reset_node: "consistent g \<Longrightarrow> consistent (on_node cell_reset p g)"
  unfolding consistent_iff by (auto simp add: state_at_on_node)

lemma consistent_closed_node: "consistent g \<Longrightarrow> consistent (on_node cell_set_closed p g)"
  unfolding consistent_iff by (auto simp add: state_at_on_node)

lemma consistent_no_start:
  assumes "consistent g" and "\<forall>q. in_grid (grid g) q \<longrightarrow> state_at g q = START \<longrightarrow> start g \<noteq> Some q"
  shows "consistent (g\<lparr>start := None\<rparr>)"
  using assms unfolding consistent_iff by auto

lemma consistent_no_end:
  assumes "consistent g" and "\<forall>q. in_grid (grid g) q \<longrightarrow> state_at g q = END \<longrightarrow> end_node g \<noteq> Some q"
  shows "consistent (g\<lparr>end_node := None\<rparr>)"
  using assms unfolding consistent_iff by auto


lemma state_at_reset_node: "in_grid (grid g) p \<Longrightarrow> state_at (on_node cell_reset p g) p = EMPTY"
  by (simp add: state_at_on_node)

lemma consistent_delete_start:
  assumes "consistent g" and "Some p = start g"
  shows "consistent ((on_node cell_reset p g)\<lparr>start := None\<rparr>)"
proof (rule consistent_no_start)
  show "consistent (on_node cell_reset p g)"
    using assms(1) by (rule consistent_reset_node)
  show "\<forall>q. in_grid (grid (on_node cell_reset p g)) q
          \<longrightarrow> state_at (on_node cell_reset p g) q = START
          \<longrightarrow> start (on_node cell_reset p g) \<noteq> Some q"
    using assms(2) by (auto simp add: state_at_on_node)
qed

lemma consistent_delete_end:
  assumes "consistent g" and "Some p = end_node g"
  shows "consistent ((on_node cell_reset p g)\<lparr>end_node := None\<rparr>)"
proof (rule consistent_no_end)
  show "consistent (on_node cell_reset p g)"
    using assms(1) by (rule consistent_reset_node)
  show "\<forall>q. in_grid (grid (on_node cell_reset p g)) q
          \<longrightarrow> state_at (on_node cell_reset p g) q = END
          \<longrightarrow> end_node (on_node cell_reset p g) \<noteq> Some q"
    using assms(2) by (auto simp add: state_at_on_node)
qed

lemma consistent_delete_end_with_path:
  assumes "consistent g" and "Some p = end_node g"
  shows "consistent ((on_node cell_set_closed p (mark_path True (on_node cell_reset p g)))
                      \<lparr>end_node := None\<rparr>)"
proof (rule consistent_no_end)
  let ?g1 = "on_node cell_reset p g"
  let ?g2 = "on_node cell_set_closed p (mark_path True ?g1)"
  show "consistent ?g2"
    using assms(1) by (intro consistent_closed_node consistent_mark_path consistent_reset_node)
  show "\<forall>q. in_grid (grid ?g2) q \<longrightarrow> state_at ?g2 q = END \<longrightarrow> end_node ?g2 \<noteq> Some q"
  proof (intro allI impI)
    fix q
    assume q: "in_grid (grid ?g2) q" and e: "state_at ?g2 q = END"
    then have i: "in_grid (grid g) q"
      by simp
    have "q \<noteq> p"
      using i e by (auto simp add: state_at_on_node)
    then show "end_node ?g2 \<noteq> Some q"
      using assms(2) by (metis mark_path_fields(2) on_node_fields(2) option.inject)
  qed
qed

lemma consistent_right_click: "consistent g \<Longrightarrow> consistent (right_click g p)"
  by (simp add: right_click_def Let_def consistent_delete_start consistent_delete_end
      consistent_delete_end_with_path consistent_reset_node)


lemma consistent_key_down:
  assumes "ops_ok A" and "consistent g"
  shows "consistent (key_down A g k)"
proof -
  have run: "consistent (a_star A g)" "consistent (dijkstra A g)"
    "consistent (reset_discovered A g)" "consistent (generate_maze A (reset g))"
    using assms consistent_reset [of g] unfolding ops_ok_def by blast+
  show ?thesis
    using assms(2) run by (simp add: key_down_def Let_def consistent_reset consistent_mark_path)
qed

lemma consistent_handle_event:
  assumes "ops_ok A" and "consistent (graph u)" and "handle_event A u e = Inr u'"
  shows "consistent (graph u')"
  using assms
  by (auto simp add: handle_event_def consistent_left_click consistent_middle_click
      consistent_right_click consistent_key_down
      split: if_splits sum.splits event_type.splits)

lemma consistent_handle_events:
  assumes "ops_ok A"
  shows "consistent (graph u) \<Longrightarrow> handle_events A u es = Inr (b, u') \<Longrightarrow> consistent (graph u')"
proof (induction es arbitrary: u)
  case Nil
  then show ?case by simp
next
  case (Cons e es)
  show ?case
  proof (cases "etype e = QUIT")
    case True
    with Cons.prems show ?thesis by simp
  next
    case False
    with Cons.prems obtain u1 where h: "handle_event A u e = Inr u1"
      and rest: "handle_events A u1 es = Inr (b, u')"
      by (auto split: sum.splits)
    from consistent_handle_event [OF assms Cons.prems(1) h] have "consistent (graph u1)" .
    from Cons.IH [OF this rest] show ?thesis .
  qed
qed

lemma state_at_clear_discovered:
  "in_grid (grid g) p \<Longrightarrow>
   state_at (clear_discovered g) p = state_at g p \<or> state_at (clear_discovered g) p = EMPTY"
  by (simp add: state_at_def clear_discovered_def cell_at_map)

lemma clear_discovered_fields [simp]:
  "start (clear_discovered g) = start g" "end_node (clear_discovered g) = end_node g"
  "in_grid (grid (clear_discovered g)) p = in_grid (grid g) p"
  by (simp_all add: clear_discovered_def)

lemma consistent_clear_discovered: "consistent g \<Longrightarrow> consistent (clear_discovered g)"
  unfolding consistent_iff
  using state_at_clear_discovered [of g]
  by (simp; metis State.distinct)

lemma ops_ok_cancelled: "ops_ok cancelled"
  by (simp add: ops_ok_def cancelled_def consistent_clear_discovered)

lemma edited_run:
  "handle_events cancelled small_gui
     [left_press (10, 10), middle_press (50, 50), left_press (50, 10), key_press K_c,
      right_press (10, 10)]
   = Inr (True, small_gui\<lparr>graph := edited_graph\<rparr>)"
  by code_simp

text \<open>
  C6. After every event that the handler handles, and so after every batch of events, the
  graph satisfies the invariants: at most one cell is in state \<open>START\<close>, at most one is in
  state \<open>END\<close>, the start cell and the end cell are distinct, and no cell in state \<open>BARRIER\<close> is
  the start or the end cell. This holds from the graph that the constructor creates, and
  from every consistent graph, provided that the absent algorithms keep a consistent graph
  consistent; the pointer branches, the full reset and \<open>mark_path\<close> do so by themselves.
\<close>

theorem handler_keeps_invariants:
  assumes "ops_ok A"
  shows "consistent (Graph n w)
       \<and> (consistent (graph u) \<and> handle_event A u e = Inr u1
            \<longrightarrow> consistent (graph u1) \<and> invariants (graph u1))
       \<and> (consistent (graph u) \<and> handle_events A u es = Inr (b, u')
            \<longrightarrow> consistent (graph u') \<and> invariants (graph u'))
       \<and> (GUI n w = Inr u \<and> handle_events A u es = Inr (b, u') \<longrightarrow> invariants (graph u'))"
proof -
  have start: "consistent (graph u)" if "GUI n w = Inr u"
    using that consistent_Graph
    by (auto simp add: GUI_def Let_def split: if_splits)
  show ?thesis
    using consistent_handle_events [OF assms, of u es b u']
      consistent_handle_event [OF assms, of u e u1]
      consistent_Graph [of n w] start
      consistent_invariants [of "graph u'"] consistent_invariants [of "graph u1"]
    by blast
qed

text \<open>
  The theorem on a run from the fresh \<open>GUI(5, 100)\<close>: the start, the end and a barrier are
  placed, the discovered cells are cleared, and the start is deleted.
\<close>

theorem handler_keeps_invariants_witness:
  "ops_ok cancelled
   \<and> GUI 5 100 = Inr small_gui
   \<and> handle_events cancelled small_gui
        [left_press (10, 10), middle_press (50, 50), left_press (50, 10), key_press K_c,
         right_press (10, 10)]
      = Inr (True, small_gui\<lparr>graph := edited_graph\<rparr>)
   \<and> invariants edited_graph"
proof -
  let ?es = "[left_press (10, 10), middle_press (50, 50), left_press (50, 10), key_press K_c,
              right_press (10, 10)]"
  let ?u = "small_gui\<lparr>graph := edited_graph\<rparr>"
  from handler_keeps_invariants [OF ops_ok_cancelled,
      where n = 5 and w = 100 and u = small_gui and es = ?es and b = True and u' = ?u]
  have "GUI 5 100 = Inr small_gui \<and> handle_events cancelled small_gui ?es = Inr (True, ?u)
      \<longrightarrow> invariants (graph ?u)"
    by blast
  with GUI_5_100 edited_run have "invariants (graph ?u)"
    by blast
  then have "invariants edited_graph"
    by simp
  with ops_ok_cancelled GUI_5_100 edited_run show ?thesis
    by blast
qed

end
